theory Spec2Isabelle
  imports Main "HOL-Library.Sublist"
begin

section \<open>Shell vocabulary shared by the scripts\<close>

text \<open>
  The repository is a set of bash scripts run under \<^verbatim>\<open>set -euo pipefail\<close>. External
  programs (docker, git, curl, sed) are not part of the repository: each invocation is
  answered by an environment, which gives its exit status and what it writes. A script is
  a function from the environment and the state it can change to an exit status, the new
  state and the list of events it produced, in order.

  Modelling boundary: \<^verbatim>\<open>echo\<close>, \<^verbatim>\<open>sleep\<close>, \<^verbatim>\<open>cat\<close> to an existing directory, \<^verbatim>\<open>rm -f\<close>,
  \<^verbatim>\<open>tr\<close>, \<^verbatim>\<open>wc\<close> and \<^verbatim>\<open>date\<close> are taken to succeed; every docker, git and curl
  invocation may fail, and sed is discussed where it is used. Messages are kept without
  their non-ASCII decoration.
\<close>

record cmd_result =
  exit_status :: nat
  stdout :: "string list"
  stderr :: "string list"

datatype event =
    Echo string          \<comment> \<open>a line the script itself prints\<close>
  | Cmd "string list"    \<comment> \<open>an external command that was started, with its arguments\<close>
  | Output string        \<comment> \<open>a line of a command that reaches the terminal\<close>

text \<open>A command whose output is not redirected, and one run with \<^verbatim>\<open>2>/dev/null\<close>.\<close>

definition run_cmd :: "string list \<Rightarrow> cmd_result \<Rightarrow> event list" where
  "run_cmd argv r = Cmd argv # map Output (stdout r @ stderr r)"

definition run_cmd_quiet :: "string list \<Rightarrow> cmd_result \<Rightarrow> event list" where
  "run_cmd_quiet argv r = Cmd argv # map Output (stdout r)"

definition newline :: char where
  "newline = CHR 0x0A"

text \<open>Command substitution \<^verbatim>\<open>$(...)\<close> drops the trailing newlines of what it captured.\<close>

definition strip_trailing_newlines :: "string \<Rightarrow> string" where
  "strip_trailing_newlines s = rev (dropWhile (\<lambda>c. c = newline) (rev s))"

text \<open>Decimal rendering of a shell integer, for \<^verbatim>\<open>$n\<close> in messages.\<close>

definition digit_char :: "nat \<Rightarrow> char" where
  "digit_char d = char_of (48 + d)"

fun show_nat :: "nat \<Rightarrow> string" where
  "show_nat n = (if n < 10 then [digit_char n] else show_nat (n div 10) @ [digit_char (n mod 10)])"

declare show_nat.simps [simp del]

section \<open>Health Verifier: the polling loop of deploy.sh\<close>

text \<open>
  \<^verbatim>\<open>
  HEALTH_URL="http://127.0.0.1:8000/health"
  HEALTH_RETRIES=15
  HEALTH_WAIT=2
  n=0
  until [ $n -ge $HEALTH_RETRIES ]
  do
    status_code=$(curl -s -o /dev/null -w "%{http_code}" "$HEALTH_URL" || echo "000")
    if [ "$status_code" = "200" ]; then
      echo "Health check passed!"
      break
    else
      n=$((n+1))
      echo "   Attempt $n/$HEALTH_RETRIES (status: $status_code) - retrying in ${HEALTH_WAIT}s..."
      sleep $HEALTH_WAIT
    fi
  done
  \<close>
  The same loop is in all four variants of deploy.sh. The retry budget is a parameter of
  the model; the scripts fix it to 15.
\<close>

definition HEALTH_URL :: string where
  "HEALTH_URL = ''http://127.0.0.1:8000/health''"

text \<open>The two variants with a supersession step poll the public address instead.\<close>

definition HEALTH_URL_public :: string where
  "HEALTH_URL_public = ''http://3.109.59.94:8080/health''"

definition HEALTH_RETRIES :: nat where
  "HEALTH_RETRIES = 15"

definition HEALTH_WAIT :: nat where
  "HEALTH_WAIT = 2"

text \<open>
  One curl invocation: its exit status and what \<^verbatim>\<open>-w "%{http_code}"\<close> wrote. When curl
  fails, the \<^verbatim>\<open>|| echo "000"\<close> branch appends a line to the captured text.
\<close>

record curl_result =
  curl_exit :: nat
  curl_out :: string

definition status_code_of :: "curl_result \<Rightarrow> string" where
  "status_code_of r =
     strip_trailing_newlines
       (curl_out r @ (if curl_exit r = 0 then [] else ''000'' @ [newline]))"

definition curl_argv :: "string \<Rightarrow> string list" where
  "curl_argv url = [''curl'', ''-s'', ''-o'', ''/dev/null'', ''-w'', ''%{http_code}'', url]"

definition attempt_msg :: "nat \<Rightarrow> nat \<Rightarrow> string \<Rightarrow> string" where
  "attempt_msg n R code =
     ''   Attempt '' @ show_nat n @ ''/'' @ show_nat R @ '' (status: '' @ code
       @ '') - retrying in '' @ show_nat HEALTH_WAIT @ ''s...''"

text \<open>
  The loop state is the shell variables \<open>n\<close> and \<open>status_code\<close> (unset before the first
  attempt), the number of curl invocations made so far, which selects the environment's
  answer, and the events so far.
\<close>

function health_loop ::
  "string \<Rightarrow> nat \<Rightarrow> (nat \<Rightarrow> curl_result) \<Rightarrow> nat \<Rightarrow> nat \<Rightarrow> string option \<Rightarrow> event list
     \<Rightarrow> string option \<times> event list" where
  "health_loop url R curl n calls status_code t =
     (if n \<ge> R then (status_code, t)
      else
        let code = status_code_of (curl calls);
            t1 = t @ [Cmd (curl_argv url)]
        in if code = ''200'' then (Some code, t1 @ [Echo ''Health check passed!''])
           else health_loop url R curl (n + 1) (calls + 1) (Some code)
                  (t1 @ [Echo (attempt_msg (n + 1) R code),
                         Cmd [''sleep'', show_nat HEALTH_WAIT]]))"
  by pat_completeness auto
termination
  by (relation "measure (\<lambda>(url, R, curl, n, calls, status_code, t). R - n)") auto

declare health_loop.simps [simp del]

definition health_check ::
  "string \<Rightarrow> nat \<Rightarrow> (nat \<Rightarrow> curl_result) \<Rightarrow> string option \<times> event list" where
  "health_check url R curl = health_loop url R curl 0 0 None []"

text \<open>The GET attempts of a run are the curl invocations among its events.\<close>

fun is_curl :: "event \<Rightarrow> bool" where
  "is_curl (Cmd argv) = (take 1 argv = [''curl''])"
| "is_curl _ = False"

definition attempts :: "event list \<Rightarrow> nat" where
  "attempts t = length (filter is_curl t)"

section \<open>Rollout Executor: scripts/deploy.sh\<close>

text \<open>
  What a rollout can change on the host: the override manifest
  \<^verbatim>\<open>$APP_DIR/docker-compose.override.yml\<close> (absent, or its lines) and the containers.
\<close>

record container =
  cname :: string
  cimage :: string
  cports :: string
  running :: bool

record host =
  override_file :: "string list option"
  containers :: "container list"

record 's outcome =
  exit_code :: nat
  final :: 's
  trace :: "event list"

text \<open>
  The environment of a rollout: the answer of each external command. The compose
  commands see the host as it is when they run, the listings the containers.
\<close>

record docker_env =
  env_HOME :: "string option"
  env_DOCKERHUB_REPO :: "string option"
  docker_pull :: "string \<Rightarrow> cmd_result"
  app_dir_ok :: "string \<Rightarrow> bool"
  compose_up :: "host \<Rightarrow> cmd_result \<times> container list"
  compose_down :: "host \<Rightarrow> cmd_result \<times> container list"
  curl_get :: "nat \<Rightarrow> curl_result"
  docker_ps :: cmd_result
  compose_logs :: cmd_result
  image_prune :: cmd_result
  ps_all_ports :: "container list \<Rightarrow> cmd_result"
  ps_all_ancestor :: "string \<Rightarrow> container list \<Rightarrow> cmd_result"
  docker_stop :: "string \<Rightarrow> cmd_result"
  docker_rm :: "string \<Rightarrow> cmd_result"
  date_out :: string

text \<open>\<^verbatim>\<open>${i:-default}\<close>: the positional parameter, or the default when unset or empty.\<close>

definition arg_or :: "string list \<Rightarrow> nat \<Rightarrow> string \<Rightarrow> string" where
  "arg_or args i d = (if i < length args \<and> args ! i \<noteq> [] then args ! i else d)"

definition dquote :: string where
  "dquote = [CHR 0x22]"

definition banner :: event where
  "banner = Echo []"

definition override_lines :: "string \<Rightarrow> string \<Rightarrow> string list" where
  "override_lines service img =
     [''version: '' @ dquote @ ''3.8'' @ dquote,
      ''services:'',
      ''  '' @ service @ '':'',
      ''    image: '' @ img,
      ''    restart: unless-stopped'']"

definition pull_argv :: "string \<Rightarrow> string list" where
  "pull_argv img = [''docker'', ''pull'', img]"

definition up_argv :: "string list" where
  "up_argv = [''docker'', ''compose'', ''up'', ''-d'', ''--remove-orphans'']"

definition backslash_t :: string where
  "backslash_t = [CHR 0x5C, CHR ''t'']"

definition ps_argv :: "string list" where
  "ps_argv = [''docker'', ''ps'', ''--format'',
              ''table {{.Names}}'' @ backslash_t @ ''{{.Image}}'' @ backslash_t @ ''{{.Status}}'']"

definition logs_argv :: "string list" where
  "logs_argv = [''docker'', ''compose'', ''logs'', ''--no-color'', ''--tail=200'']"

definition prune_argv :: "string list" where
  "prune_argv = [''docker'', ''image'', ''prune'', ''-f'']"

text \<open>
  Lines 67 to 85, after the loop. \<open>status_code\<close> is unset only when the loop body never
  ran, and then \<^verbatim>\<open>set -u\<close> stops the script at the test. Under \<^verbatim>\<open>set -e\<close> a failing
  \<^verbatim>\<open>docker ps\<close>, \<^verbatim>\<open>docker compose logs\<close> or \<^verbatim>\<open>docker image prune\<close> ends the script with
  that command's status.
  \<^verbatim>\<open>
  if [ "$status_code" != "200" ]; then
    echo "Health check failed after $HEALTH_RETRIES attempts"
    echo ""
    echo "Container status:"
    docker ps --format "table {{.Names}}\t{{.Image}}\t{{.Status}}"
    echo ""
    echo "Recent logs:"
    docker compose logs --no-color --tail=200
    exit 1
  fi
  echo "Cleaning up unused images..."
  docker image prune -f
  echo "Deployment completed successfully at $(date)"
  \<close>
\<close>

definition verify :: "docker_env \<Rightarrow> nat \<Rightarrow> host \<Rightarrow> string option \<Rightarrow> event list \<Rightarrow> host outcome" where
  "verify env R h status_code t =
     (case status_code of
        None \<Rightarrow> \<lparr>exit_code = 1, final = h, trace = t @ [Echo ''status_code: unbound variable'']\<rparr>
      | Some code \<Rightarrow>
          if code \<noteq> ''200'' then
            let t1 = t @ [Echo (''Health check failed after '' @ show_nat R @ '' attempts''),
                          Echo [], Echo ''Container status:'']
                       @ run_cmd ps_argv (docker_ps env)
            in if exit_status (docker_ps env) \<noteq> 0
               then \<lparr>exit_code = exit_status (docker_ps env), final = h, trace = t1\<rparr>
               else
                 let t2 = t1 @ [Echo [], Echo ''Recent logs:'']
                            @ run_cmd logs_argv (compose_logs env)
                 in if exit_status (compose_logs env) \<noteq> 0
                    then \<lparr>exit_code = exit_status (compose_logs env), final = h, trace = t2\<rparr>
                    else \<lparr>exit_code = 1, final = h, trace = t2\<rparr>
          else
            let t1 = t @ [Echo ''Cleaning up unused images...'']
                       @ run_cmd prune_argv (image_prune env)
            in if exit_status (image_prune env) \<noteq> 0
               then \<lparr>exit_code = exit_status (image_prune env), final = h, trace = t1\<rparr>
               else \<lparr>exit_code = 0, final = h,
                      trace = t1 @ [banner,
                        Echo (''Deployment completed successfully at '' @ date_out env),
                        banner]\<rparr>)"

text \<open>Lines 51 to 85: the polling loop, then \<open>verify\<close> on the variables it leaves.\<close>

definition poll_and_verify ::
  "string \<Rightarrow> docker_env \<Rightarrow> nat \<Rightarrow> host \<Rightarrow> event list \<Rightarrow> host outcome" where
  "poll_and_verify url env R h t =
     (let polled = health_check url R (curl_get env)
      in verify env R h (fst polled) (t @ [Echo ''Running health checks...''] @ snd polled))"

text \<open>
  The script of \<^verbatim>\<open>scripts/deploy.sh\<close>, lines 8 to 49, followed by the lines above.
  \<^verbatim>\<open>
  IMAGE="${1:-}"
  APP_DIR="${2:-/root/server}"
  SERVICE_NAME="${3:-app}"
  if [ -z "$IMAGE" ]; then echo "Usage: ..."; echo "Example: ..."; exit 1; fi
  docker pull "$IMAGE"
  cat > "$APP_DIR/docker-compose.override.yml" <<EOF ... EOF
  cd "$APP_DIR"
  docker compose up -d --remove-orphans
  \<close>
  The redirection fails, and ends the script, when \<open>APP_DIR\<close> is not a directory that
  can be written; after it succeeded, \<^verbatim>\<open>cd\<close> succeeds.
\<close>

definition usage_lines :: "string \<Rightarrow> event list" where
  "usage_lines home =
     [Echo ''Usage: deploy.sh <image> [app_dir] [service_name]'',
      Echo (''Example: deploy.sh username/app:abc1234 '' @ home @ '' app'')]"

definition start_lines :: "string \<Rightarrow> string \<Rightarrow> string \<Rightarrow> event list" where
  "start_lines img app_dir service =
     [banner, Echo ''Starting deployment'', banner,
      Echo (''Image:   '' @ img),
      Echo (''App Dir: '' @ app_dir),
      Echo (''Service: '' @ service),
      banner,
      Echo ''Pulling image...'']"

definition deploy_with :: "nat \<Rightarrow> docker_env \<Rightarrow> string list \<Rightarrow> host \<Rightarrow> host outcome" where
  "deploy_with R env args h =
     (let IMAGE = arg_or args 0 [];
          APP_DIR = arg_or args 1 ''/root/server'';
          SERVICE_NAME = arg_or args 2 ''app''
      in if IMAGE = [] then
           \<lparr>exit_code = 1, final = h, trace = usage_lines ''/root/server''\<rparr>
         else
           let pulled = docker_pull env IMAGE;
               t1 = start_lines IMAGE APP_DIR SERVICE_NAME @ run_cmd (pull_argv IMAGE) pulled
           in if exit_status pulled \<noteq> 0 then
                \<lparr>exit_code = exit_status pulled, final = h, trace = t1\<rparr>
              else
                let t2 = t1 @ [Echo ''Creating docker-compose override...'']
                in if \<not> app_dir_ok env APP_DIR then
                     \<lparr>exit_code = 1, final = h, trace = t2\<rparr>
                   else
                     let h1 = h\<lparr>override_file := Some (override_lines SERVICE_NAME IMAGE)\<rparr>;
                         up = compose_up env h1;
                         h2 = h1\<lparr>containers := snd up\<rparr>;
                         t3 = t2 @ [Echo ''Deploying containers...''] @ run_cmd up_argv (fst up)
                     in if exit_status (fst up) \<noteq> 0 then
                          \<lparr>exit_code = exit_status (fst up), final = h2, trace = t3\<rparr>
                        else
                          poll_and_verify HEALTH_URL env R h2 t3)"

definition deploy :: "docker_env \<Rightarrow> string list \<Rightarrow> host \<Rightarrow> host outcome" where
  "deploy = deploy_with HEALTH_RETRIES"

text \<open>The external commands a run started, in order.\<close>

fun commands :: "event list \<Rightarrow> string list list" where
  "commands [] = []"
| "commands (Cmd argv # t) = argv # commands t"
| "commands (_ # t) = commands t"


section \<open>Rollout Executor, strict variant: supersession before the start\<close>

text \<open>
  The variant of deploy.sh that removes earlier containers before \<^verbatim>\<open>docker compose up\<close>.
  \<^verbatim>\<open>
  docker ps -a --format '{{.Names}}\t{{.Ports}}' | grep '8080' | awk '{print $1}' | while read container; do
    if [ -n "$container" ]; then
      echo "   Stopping and removing: $container"
      docker stop "$container" 2>/dev/null || true
      docker rm -f "$container" 2>/dev/null || true
    fi
  done || true
  \<close>
  \<^verbatim>\<open>grep '8080'\<close> keeps the lines in which the text 8080 occurs, \<^verbatim>\<open>awk '{print $1}'\<close> takes
  the first blank-separated field, \<^verbatim>\<open>read\<close> trims blanks. Container names contain neither
  blanks nor backslashes, so the backslash handling of \<^verbatim>\<open>read\<close> is not modelled.
\<close>

fun contains :: "string \<Rightarrow> string \<Rightarrow> bool" where
  "contains pat [] = (pat = [])"
| "contains pat (c # cs) = (prefix pat (c # cs) \<or> contains pat cs)"

definition is_blank :: "char \<Rightarrow> bool" where
  "is_blank c = (c = CHR '' '' \<or> c = CHR 0x09 \<or> c = newline)"

definition first_field :: "string \<Rightarrow> string" where
  "first_field l = takeWhile (\<lambda>c. \<not> is_blank c) (dropWhile is_blank l)"

definition shell_read :: "string \<Rightarrow> string" where
  "shell_read l = rev (dropWhile is_blank (rev (dropWhile is_blank l)))"

definition stop_argv :: "string \<Rightarrow> string list" where
  "stop_argv c = [''docker'', ''stop'', c]"

definition rm_argv :: "string \<Rightarrow> string list" where
  "rm_argv c = [''docker'', ''rm'', ''-f'', c]"

definition announce :: "string \<Rightarrow> event" where
  "announce c = Echo (''   Stopping and removing: '' @ c)"

definition mark_stopped :: "string \<Rightarrow> container list \<Rightarrow> container list" where
  "mark_stopped c ks = map (\<lambda>k. if cname k = c then k\<lparr>running := False\<rparr> else k) ks"

definition remove_container :: "string \<Rightarrow> container list \<Rightarrow> container list" where
  "remove_container c ks = filter (\<lambda>k. cname k \<noteq> c) ks"

text \<open>
  The body of the \<^verbatim>\<open>while read\<close> loop, over the names read; it changes the containers
  only. Both commands are followed by \<^verbatim>\<open>|| true\<close>: their status is dropped, and
  \<^verbatim>\<open>2>/dev/null\<close> drops what they write to standard error.
\<close>

fun stop_rm_loop ::
  "docker_env \<Rightarrow> string list \<Rightarrow> container list \<Rightarrow> event list \<Rightarrow> container list \<times> event list" where
  "stop_rm_loop env [] ks t = (ks, t)"
| "stop_rm_loop env (c # cs) ks t =
     (if c = [] then stop_rm_loop env cs ks t
      else
        let stopped = docker_stop env c;
            ks1 = (if exit_status stopped = 0 then mark_stopped c ks else ks);
            removed = docker_rm env c;
            ks2 = (if exit_status removed = 0 then remove_container c ks1 else ks1);
            t1 = t @ [announce c] @ run_cmd_quiet (stop_argv c) stopped
                   @ run_cmd_quiet (rm_argv c) removed
        in stop_rm_loop env cs ks2 t1)"

definition ps_ports_argv :: "string list" where
  "ps_ports_argv = [''docker'', ''ps'', ''-a'', ''--format'', ''{{.Names}}'' @ backslash_t @ ''{{.Ports}}'']"

definition ps_ancestor_argv :: "string \<Rightarrow> string list" where
  "ps_ancestor_argv repo =
     [''docker'', ''ps'', ''-a'', ''--filter'', ''ancestor='' @ repo, ''--format'', ''{{.Names}}'']"

definition down_argv :: "string list" where
  "down_argv = [''docker'', ''compose'', ''down'']"

text \<open>\<^verbatim>\<open>${DOCKERHUB_REPO:-rajibsalui/my-express-server}\<close>\<close>

definition ancestor_repo :: "docker_env \<Rightarrow> string" where
  "ancestor_repo env =
     (case env_DOCKERHUB_REPO env of
        None \<Rightarrow> ''rajibsalui/my-express-server''
      | Some r \<Rightarrow> if r = [] then ''rajibsalui/my-express-server'' else r)"

text \<open>The names the first pass reads from the listing by port.\<close>

definition port_matches :: "docker_env \<Rightarrow> container list \<Rightarrow> string list" where
  "port_matches env ks =
     map (\<lambda>l. shell_read (first_field l)) (filter (contains ''8080'') (stdout (ps_all_ports env ks)))"

text \<open>The names the second pass reads from the listing by image ancestry.\<close>

definition ancestor_matches :: "docker_env \<Rightarrow> container list \<Rightarrow> string list" where
  "ancestor_matches env ks = map shell_read (stdout (ps_all_ancestor env (ancestor_repo env) ks))"

text \<open>
  Lines 134 to 159. Each pipeline ends in \<^verbatim>\<open>|| true\<close>, so neither a failing listing nor
  \<^verbatim>\<open>grep\<close> finding nothing ends the script; the listings write their errors to the
  terminal. \<^verbatim>\<open>docker compose down 2>/dev/null || true\<close> closes the step.
\<close>

definition supersede :: "docker_env \<Rightarrow> host \<Rightarrow> event list \<Rightarrow> host \<times> event list" where
  "supersede env h t =
     (let t1 = t @ [Echo ''Stopping existing containers...'',
                    Echo ''   Removing all containers using port 8080...'',
                    Cmd ps_ports_argv]
                 @ map Output (stderr (ps_all_ports env (containers h)));
          pass1 = stop_rm_loop env (port_matches env (containers h)) (containers h) t1;
          ks1 = fst pass1;
          t2 = snd pass1
                 @ [Echo (''   Removing containers with image: '' @ ancestor_repo env @ ''...''),
                    Cmd (ps_ancestor_argv (ancestor_repo env))]
                 @ map Output (stderr (ps_all_ancestor env (ancestor_repo env) ks1));
          pass2 = stop_rm_loop env (ancestor_matches env ks1) ks1 t2;
          h2 = h\<lparr>containers := fst pass2\<rparr>;
          down = compose_down env h2
      in (h2\<lparr>containers := snd down\<rparr>, snd pass2 @ run_cmd_quiet down_argv (fst down)))"

text \<open>
  The same environment, but with other text on the standard error of \<^verbatim>\<open>docker stop\<close> and
  \<^verbatim>\<open>docker rm\<close>: used to say that this text reaches nobody.
\<close>

definition with_removal_errors ::
  "(string \<Rightarrow> string list) \<Rightarrow> (string \<Rightarrow> string list) \<Rightarrow> docker_env \<Rightarrow> docker_env" where
  "with_removal_errors e1 e2 env =
     env\<lparr>docker_stop := (\<lambda>c. (docker_stop env c)\<lparr>stderr := e1 c\<rparr>),
         docker_rm := (\<lambda>c. (docker_rm env c)\<lparr>stderr := e2 c\<rparr>)\<rparr>"

text \<open>The containers that are left when the first pass is over.\<close>

definition after_port_pass :: "docker_env \<Rightarrow> container list \<Rightarrow> container list" where
  "after_port_pass env ks = fst (stop_rm_loop env (port_matches env ks) ks [])"

text \<open>
  The strict script. \<^verbatim>\<open>APP_DIR="${2:-$HOME/server}"\<close> is evaluated before the image is
  checked, and under \<^verbatim>\<open>set -u\<close> it ends the script when the second argument is missing
  and \<open>HOME\<close> is unset. Its override manifest has no version line.
\<close>

definition strict_app_dir :: "docker_env \<Rightarrow> string list \<Rightarrow> string option" where
  "strict_app_dir env args =
     (if 1 < length args \<and> args ! 1 \<noteq> [] then Some (args ! 1)
      else map_option (\<lambda>home. home @ ''/server'') (env_HOME env))"

definition override_lines_strict :: "string \<Rightarrow> string \<Rightarrow> string list" where
  "override_lines_strict service img =
     [''services:'',
      ''  '' @ service @ '':'',
      ''    image: '' @ img,
      ''    restart: unless-stopped'']"

definition deploy_strict_with :: "nat \<Rightarrow> docker_env \<Rightarrow> string list \<Rightarrow> host \<Rightarrow> host outcome" where
  "deploy_strict_with R env args h =
     (let IMAGE = arg_or args 0 [];
          SERVICE_NAME = arg_or args 2 ''app''
      in case strict_app_dir env args of
           None \<Rightarrow> \<lparr>exit_code = 1, final = h, trace = [Echo ''HOME: unbound variable'']\<rparr>
         | Some APP_DIR \<Rightarrow>
             if IMAGE = [] then
               \<lparr>exit_code = 1, final = h, trace = usage_lines ''~/server''\<rparr>
             else
               let pulled = docker_pull env IMAGE;
                   t1 = start_lines IMAGE APP_DIR SERVICE_NAME @ run_cmd (pull_argv IMAGE) pulled
               in if exit_status pulled \<noteq> 0 then
                    \<lparr>exit_code = exit_status pulled, final = h, trace = t1\<rparr>
                  else
                    let t2 = t1 @ [Echo ''Creating docker-compose override...'']
                    in if \<not> app_dir_ok env APP_DIR then
                         \<lparr>exit_code = 1, final = h, trace = t2\<rparr>
                       else
                         let h1 = h\<lparr>override_file := Some (override_lines_strict SERVICE_NAME IMAGE)\<rparr>;
                             cleared = supersede env h1 t2;
                             up = compose_up env (fst cleared);
                             h2 = (fst cleared)\<lparr>containers := snd up\<rparr>;
                             t3 = snd cleared @ [Echo ''Deploying containers...'']
                                    @ run_cmd up_argv (fst up)
                         in if exit_status (fst up) \<noteq> 0 then
                              \<lparr>exit_code = exit_status (fst up), final = h2, trace = t3\<rparr>
                            else poll_and_verify HEALTH_URL_public env R h2 t3)"

definition deploy_strict :: "docker_env \<Rightarrow> string list \<Rightarrow> host \<Rightarrow> host outcome" where
  "deploy_strict = deploy_strict_with HEALTH_RETRIES"

section \<open>Image Publisher: scripts/build-and-push.sh\<close>

text \<open>
  The environment of a build: the variables the script reads and the answers of git,
  date, docker and sed. \<open>compose_services\<close> is \<^verbatim>\<open>docker compose config --services\<close>:
  its exit status and the text it writes.
  \<open>sed_special\<close> answers for sed when the replacement text holds a slash, a backslash
  or a newline; its answer is the exit status and the new lines of the file.
\<close>

record build_env =
  GITHUB_SHA :: "string option"
  DOCKERHUB_REPO :: "string option"
  DOCKERHUB_USERNAME :: "string option"
  DOCKERHUB_TOKEN :: "string option"
  git_on_path :: bool
  git_inside_work_tree :: nat
  git_short_head :: "nat \<times> string"
  date_stamp :: string
  compose_services :: "nat \<times> string"
  compose_build :: "string list \<Rightarrow> cmd_result"
  docker_login :: cmd_result
  docker_push :: "string \<Rightarrow> cmd_result"
  sed_is_gnu :: bool
  sed_special :: "string \<Rightarrow> string list \<Rightarrow> nat \<times> string list"

text \<open>
  What a build can change in its working directory: the transient manifest
  \<^verbatim>\<open>.docker-compose.image.override.yml\<close> and the regular files at other paths, each a list
  of lines. The files listed are taken to be writable.
\<close>

record workspace =
  image_override :: "string list option"
  files :: "string \<Rightarrow> string list option"

text \<open>\<^verbatim>\<open>log() { printf "\n[INFO] %s\n" "$*"; }\<close> and \<^verbatim>\<open>err()\<close>, the same to standard error.\<close>

definition log :: "string \<Rightarrow> event list" where
  "log msg = [Echo [], Echo (''[INFO] '' @ msg)]"

definition err :: "string \<Rightarrow> event list" where
  "err msg = [Echo [], Echo (''[ERROR] '' @ msg)]"

text \<open>
  \<^verbatim>\<open>
  WORKFLOW_FILE_ARG=""
  while [[ $# -gt 0 ]]; do
    case $1 in
      --workflow-file) WORKFLOW_FILE_ARG="$2"; shift 2 ;;
      --help|-h) echo "Usage: ..."; exit 0 ;;
      *) echo "Unknown arg: $1"; exit 1 ;;
    esac
  done
  \<close>
  With \<^verbatim>\<open>--workflow-file\<close> as the last argument, \<^verbatim>\<open>$2\<close> is unset and \<^verbatim>\<open>set -u\<close> ends the
  script.
\<close>

fun parse_args :: "string list \<Rightarrow> string \<Rightarrow> (nat \<times> event list) + string" where
  "parse_args [] wfile = Inr wfile"
| "parse_args [a] wfile =
     (if a = ''--workflow-file'' then Inl (1, [Echo ''$2: unbound variable''])
      else if a = ''--help'' \<or> a = ''-h'' then Inl (0, [Echo ''Usage: build-and-push.sh [--workflow-file path]''])
      else Inl (1, [Echo (''Unknown arg: '' @ a)]))"
| "parse_args (a # v # rest) wfile =
     (if a = ''--workflow-file'' then parse_args rest v
      else if a = ''--help'' \<or> a = ''-h'' then Inl (0, [Echo ''Usage: build-and-push.sh [--workflow-file path]''])
      else Inl (1, [Echo (''Unknown arg: '' @ a)]))"

text \<open>\<^verbatim>\<open>[[ -z "${VAR:-}" ]]\<close>: the variable is unset or empty.\<close>

definition unset_or_empty :: "string option \<Rightarrow> bool" where
  "unset_or_empty v = (case v of None \<Rightarrow> True | Some s \<Rightarrow> s = [])"

text \<open>
  \<^verbatim>\<open>
  # compute tag: prefer GITHUB_SHA if present, else git short sha, else timestamp
  if [[ -n "${GITHUB_SHA:-}" ]]; then
    TAG="${GITHUB_SHA:0:7}"
  else
    if command -v git >/dev/null 2>&1 && git rev-parse --is-inside-work-tree >/dev/null 2>&1; then
      TAG="$(git rev-parse --short HEAD)"
    else
      TAG="$(date +%Y%m%d%H%M%S)"
    fi
  fi
  \<close>
  The result is the tag, or the status the script ends with: an assignment whose command
  substitution fails has that command's status, and \<^verbatim>\<open>set -e\<close> ends the script there.
\<close>

definition compute_tag :: "build_env \<Rightarrow> nat + string" where
  "compute_tag env =
     (if \<not> unset_or_empty (GITHUB_SHA env) then Inr (take 7 (the (GITHUB_SHA env)))
      else if git_on_path env \<and> git_inside_work_tree env = 0 then
        (if fst (git_short_head env) \<noteq> 0 then Inl (fst (git_short_head env))
         else Inr (strip_trailing_newlines (snd (git_short_head env))))
      else Inr (strip_trailing_newlines (date_stamp env)))"

text \<open>
  \<^verbatim>\<open>S_SAFE=$(echo "$s" | tr '[:upper:]' '[:lower:]' | tr -c '[:alnum:]-' '-')\<close>
  \<^verbatim>\<open>echo\<close> ends its output with a newline, and both \<^verbatim>\<open>tr\<close> see it. The character
  classes are those of the bytes of ASCII.
\<close>

definition is_upper :: "char \<Rightarrow> bool" where
  "is_upper c = (65 \<le> (of_char c :: nat) \<and> (of_char c :: nat) \<le> 90)"

definition is_lower :: "char \<Rightarrow> bool" where
  "is_lower c = (97 \<le> (of_char c :: nat) \<and> (of_char c :: nat) \<le> 122)"

definition is_digit :: "char \<Rightarrow> bool" where
  "is_digit c = (48 \<le> (of_char c :: nat) \<and> (of_char c :: nat) \<le> 57)"

definition is_alnum :: "char \<Rightarrow> bool" where
  "is_alnum c = (is_upper c \<or> is_lower c \<or> is_digit c)"

definition to_lower :: "char \<Rightarrow> char" where
  "to_lower c = (if is_upper c then char_of ((of_char c :: nat) + 32) else c)"

definition tr_upper_lower :: "string \<Rightarrow> string" where
  "tr_upper_lower s = map to_lower s"

definition tr_c_alnum_dash :: "string \<Rightarrow> string" where
  "tr_c_alnum_dash s = map (\<lambda>c. if is_alnum c \<or> c = CHR ''-'' then c else CHR ''-'') s"

definition S_SAFE :: "string \<Rightarrow> string" where
  "S_SAFE s = strip_trailing_newlines (tr_c_alnum_dash (tr_upper_lower (s @ [newline])))"

text \<open>
  \<^verbatim>\<open>SERVICES=$(docker compose config --services)\<close> is the text the command wrote, without
  its trailing newlines. \<^verbatim>\<open>echo "$SERVICES" | wc -l\<close> counts the newlines of that text and
  the one \<^verbatim>\<open>echo\<close> adds. \<^verbatim>\<open>for s in $SERVICES\<close> runs over the words of the text, split
  at blanks, tabs and newlines; a service name has no pattern character, so no word is
  expanded to file names. \<^verbatim>\<open>echo "$SERVICES" | sed 's/^/ - /'\<close> prints its lines.
\<close>

definition num_lines :: "string \<Rightarrow> nat" where
  "num_lines s = length (filter (\<lambda>c. c = newline) s) + 1"

fun words_from :: "string \<Rightarrow> string \<Rightarrow> string list" where
  "words_from cur [] = (if cur = [] then [] else [cur])"
| "words_from cur (c # cs) =
     (if is_blank c then (if cur = [] then words_from [] cs else cur # words_from [] cs)
      else words_from (cur @ [c]) cs)"

definition shell_words :: "string \<Rightarrow> string list" where
  "shell_words s = words_from [] s"

fun lines_from :: "string \<Rightarrow> string \<Rightarrow> string list" where
  "lines_from cur [] = [cur]"
| "lines_from cur (c # cs) =
     (if c = newline then cur # lines_from [] cs else lines_from (cur @ [c]) cs)"

definition text_lines :: "string \<Rightarrow> string list" where
  "text_lines s = lines_from [] s"

text \<open>
  \<^verbatim>\<open>
  NUM_SERVICES=$(echo "$SERVICES" | wc -l)
  if [[ "$NUM_SERVICES" -eq 1 ]]; then
    IMAGE_NAME="${DOCKERHUB_REPO}:${TAG}"
  else
    for s in $SERVICES; do
      IMAGE_NAME="${DOCKERHUB_REPO}-${S_SAFE}:${TAG}"
    done
  fi
  \<close>
  The same names are computed again in the push stage.
\<close>

definition image_names :: "string \<Rightarrow> string \<Rightarrow> string \<Rightarrow> string list" where
  "image_names repo tag SERVICES =
     (if num_lines SERVICES = 1 then [repo @ '':'' @ tag]
      else map (\<lambda>s. repo @ ''-'' @ S_SAFE s @ '':'' @ tag) (shell_words SERVICES))"

text \<open>
  The lines of the transient manifest: the header, then the single-service branch, with
  \<^verbatim>\<open>SERVICE_NAME=$(echo "$SERVICES" | tr -d '[:space:]')\<close>, or one entry per word.
\<close>

definition is_space :: "char \<Rightarrow> bool" where
  "is_space c = (c = CHR '' '' \<or> (9 \<le> (of_char c :: nat) \<and> (of_char c :: nat) \<le> 13))"

definition image_override_lines :: "string \<Rightarrow> string \<Rightarrow> string \<Rightarrow> string list" where
  "image_override_lines repo tag SERVICES =
     [''version: '' @ dquote @ ''3.8'' @ dquote, ''services:'']
       @ (if num_lines SERVICES = 1 then
            [''  '' @ filter (\<lambda>c. \<not> is_space c) SERVICES @ '':'',
             ''    image: '' @ repo @ '':'' @ tag]
          else concat (map (\<lambda>s. [''  '' @ s @ '':'',
                                   ''    image: '' @ repo @ ''-'' @ S_SAFE s @ '':'' @ tag])
                           (shell_words SERVICES)))"

definition build_argv :: "string list" where
  "build_argv = [''docker'', ''compose'', ''-f'', ''docker-compose.yml'', ''-f'',
                 ''.docker-compose.image.override.yml'', ''build'', ''--pull'', ''--no-cache'']"

definition login_argv :: "string \<Rightarrow> string list" where
  "login_argv user = [''docker'', ''login'', ''--username'', user, ''--password-stdin'']"

definition push_argv :: "string \<Rightarrow> string list" where
  "push_argv img = [''docker'', ''push'', img]"

text \<open>The push stage: one \<^verbatim>\<open>docker push\<close> per image; the first failure ends the script.\<close>

fun push_all :: "build_env \<Rightarrow> string list \<Rightarrow> event list \<Rightarrow> (nat \<times> event list) + event list" where
  "push_all env [] t = Inr t"
| "push_all env (img # rest) t =
     (let pushed = docker_push env img;
          t1 = t @ log (''Pushing '' @ img) @ run_cmd (push_argv img) pushed
      in if exit_status pushed \<noteq> 0 then Inl (exit_status pushed, t1)
         else push_all env rest t1)"

text \<open>
  \<^verbatim>\<open>sed -i "s/__IMAGE_TAG__/${TAG}/g" "${WF}"\<close>: on every line, from left to right, each
  match of the pattern is replaced and the search goes on behind it. The pattern has no
  character that is special in a regular expression.
\<close>

definition IMAGE_TAG_token :: string where
  "IMAGE_TAG_token = ''__IMAGE_TAG__''"

fun gsub :: "string \<Rightarrow> string \<Rightarrow> string \<Rightarrow> string" where
  "gsub pat rep [] = []"
| "gsub pat rep (c # cs) =
     (if prefix pat (c # cs) then rep @ gsub pat rep (drop (length pat - 1) cs)
      else c # gsub pat rep cs)"

text \<open>
  The tag is pasted into the sed program as the replacement text. There an ampersand
  stands for the text that was matched, here the token itself. A tag with a slash, a
  backslash or a newline changes the program; the environment answers for sed then.
  A tag with none of these four characters is taken literally.
\<close>

definition sed_plain :: "string \<Rightarrow> bool" where
  "sed_plain tag = list_all (\<lambda>c. c \<noteq> CHR ''/'' \<and> c \<noteq> CHR 0x5C \<and> c \<noteq> newline) tag"

definition sed_literal :: "string \<Rightarrow> bool" where
  "sed_literal tag =
     list_all (\<lambda>c. c \<noteq> CHR ''/'' \<and> c \<noteq> CHR ''&'' \<and> c \<noteq> CHR 0x5C \<and> c \<noteq> newline) tag"

definition replacement_text :: "string \<Rightarrow> string \<Rightarrow> string" where
  "replacement_text matched tag = concat (map (\<lambda>c. if c = CHR ''&'' then matched else [c]) tag)"

definition sed_in_place :: "build_env \<Rightarrow> string \<Rightarrow> string list \<Rightarrow> nat \<times> string list" where
  "sed_in_place env tag ls =
     (if sed_plain tag
      then (0, map (gsub IMAGE_TAG_token (replacement_text IMAGE_TAG_token tag)) ls)
      else sed_special env tag ls)"

definition sed_argv :: "build_env \<Rightarrow> string \<Rightarrow> string \<Rightarrow> string list" where
  "sed_argv env tag wfile =
     (if sed_is_gnu env then [''sed'', ''-i'', ''s/__IMAGE_TAG__/'' @ tag @ ''/g'', wfile]
      else [''sed'', ''-i'', [], ''s/__IMAGE_TAG__/'' @ tag @ ''/g'', wfile])"

definition placeholder_help :: "string \<Rightarrow> event list" where
  "placeholder_help wfile =
     log (''No __IMAGE_TAG__ placeholder found in '' @ wfile
            @ ''. Nothing changed. To enable automatic update,'')
     @ log ''add the literal token __IMAGE_TAG__ at the correct place in the workflow file.''
     @ log ''Example usage in workflow YAML (deploy step env or tag field):''
     @ map Echo [''env:'', ''  IMAGE_TAG: __IMAGE_TAG__'', [], ''or'', [],
                 ''tags: |'', ''  youruser/yourrepo:__IMAGE_TAG__'']"

text \<open>
  Lines 558 to 590, the optional update of the workflow file. \<^verbatim>\<open>grep -q\<close> is the test of
  an \<^verbatim>\<open>if\<close>; a failing sed ends the script. The result is \<open>Inl\<close> when the script ends in
  this step, \<open>Inr\<close> when it goes on.
  \<^verbatim>\<open>
  if [[ -n "${WORKFLOW_FILE_ARG}" ]]; then
    WF="${WORKFLOW_FILE_ARG}"
    if [[ ! -f "${WF}" ]]; then
      err "Workflow file ${WF} not found. Skipping workflow update."
    else
      if grep -q "__IMAGE_TAG__" "${WF}"; then
        log "Updating workflow file ${WF}: replacing __IMAGE_TAG__ -> ${TAG}"
        sed -i "s/__IMAGE_TAG__/${TAG}/g" "${WF}"
        log "Workflow file updated."
      else
        log "No __IMAGE_TAG__ placeholder found in ${WF}. Nothing changed. ..."
      fi
    fi
  else
    log "No workflow file provided. Skipping workflow update step."
  fi
  \<close>
\<close>

definition update_workflow ::
  "build_env \<Rightarrow> string \<Rightarrow> string \<Rightarrow> workspace \<Rightarrow> event list
     \<Rightarrow> workspace outcome + workspace \<times> event list" where
  "update_workflow env tag wfile ws t =
     (if wfile \<noteq> [] then
        (case files ws wfile of
           None \<Rightarrow>
             Inr (ws, t @ err (''Workflow file '' @ wfile @ '' not found. Skipping workflow update.''))
         | Some ls \<Rightarrow>
             if list_ex (contains IMAGE_TAG_token) ls then
               let t1 = t @ log (''Updating workflow file '' @ wfile @ '': replacing __IMAGE_TAG__ -> '' @ tag)
                          @ [Cmd (sed_argv env tag wfile)];
                   sed = sed_in_place env tag ls;
                   ws1 = ws\<lparr>files := (files ws)(wfile := Some (snd sed))\<rparr>
               in if fst sed \<noteq> 0 then Inl \<lparr>exit_code = fst sed, final = ws1, trace = t1\<rparr>
                  else Inr (ws1, t1 @ log ''Workflow file updated.'')
             else Inr (ws, t @ placeholder_help wfile))
      else Inr (ws, t @ log ''No workflow file provided. Skipping workflow update step.''))"

text \<open>
  Lines 483 to 552: the services are listed, the transient manifest is written, the
  images are built and pushed.
\<close>

definition will_tag_lines :: "string \<Rightarrow> string \<Rightarrow> string \<Rightarrow> event list" where
  "will_tag_lines repo tag SERVICES =
     (if num_lines SERVICES = 1 then
        log (''Single service detected. Will tag ''
               @ filter (\<lambda>c. \<not> is_space c) SERVICES @ '' -> '' @ repo @ '':'' @ tag)
      else concat (map (\<lambda>s. log (''Will tag '' @ s @ '' -> ''
                                    @ repo @ ''-'' @ S_SAFE s @ '':'' @ tag))
                       (shell_words SERVICES)))"

definition build_images ::
  "build_env \<Rightarrow> string \<Rightarrow> string \<Rightarrow> workspace \<Rightarrow> event list
     \<Rightarrow> workspace outcome + workspace \<times> event list" where
  "build_images env repo tag ws t =
     (let t1 = t @ log ''Listing services from docker-compose...''
                 @ [Cmd [''docker'', ''compose'', ''config'', ''--services'']]
      in if fst (compose_services env) \<noteq> 0 then
           Inl \<lparr>exit_code = fst (compose_services env), final = ws, trace = t1\<rparr>
         else
           let SERVICES = strip_trailing_newlines (snd (compose_services env))
           in if SERVICES = [] then
                Inl \<lparr>exit_code = 1, final = ws,
                      trace = t1 @ err ''No services found in docker-compose config. Exiting.''\<rparr>
              else
                let imgs = image_names repo tag SERVICES;
                    override = image_override_lines repo tag SERVICES;
                    ws1 = ws\<lparr>image_override := Some override\<rparr>;
                    built = compose_build env override;
                    t2 = t1 @ log (''Detected services: '' @ show_nat (num_lines SERVICES))
                           @ map (\<lambda>l. Echo ('' - '' @ l)) (text_lines SERVICES)
                           @ log ''Creating override file: .docker-compose.image.override.yml''
                           @ will_tag_lines repo tag SERVICES
                           @ log (''Running: docker compose -f docker-compose.yml -f ''
                                    @ ''.docker-compose.image.override.yml build --pull --no-cache'')
                           @ run_cmd build_argv built
                in if exit_status built \<noteq> 0 then
                     Inl \<lparr>exit_code = exit_status built, final = ws1, trace = t2\<rparr>
                   else
                     let t3 = t2 @ log ''Logging in to Docker Hub''
                                @ run_cmd (login_argv (the (DOCKERHUB_USERNAME env))) (docker_login env)
                     in if exit_status (docker_login env) \<noteq> 0 then
                          Inl \<lparr>exit_code = exit_status (docker_login env), final = ws1, trace = t3\<rparr>
                        else
                          (case push_all env imgs (t3 @ log ''Pushing images to Docker Hub...'') of
                             Inl (st, t4) \<Rightarrow> Inl \<lparr>exit_code = st, final = ws1, trace = t4\<rparr>
                           | Inr t4 \<Rightarrow> Inr (ws1, t4 @ log ''Pushed images:'' @ map Echo imgs)))"

text \<open>
  Lines 592 to 596, the last commands of the script. The script sets no trap: this is
  the only place where the transient manifest is removed.
  \<^verbatim>\<open>
  log "Cleaning up temporary override file ${OVERRIDE_FILE}"
  rm -f "${OVERRIDE_FILE}"
  log "Done. Built and pushed images with tag ${TAG}."
  \<close>
\<close>

definition cleanup :: "string \<Rightarrow> workspace \<Rightarrow> event list \<Rightarrow> workspace outcome" where
  "cleanup tag ws t =
     \<lparr>exit_code = 0,
       final = ws\<lparr>image_override := None\<rparr>,
       trace = t @ log ''Cleaning up temporary override file .docker-compose.image.override.yml''
                 @ [Cmd [''rm'', ''-f'', ''.docker-compose.image.override.yml'']]
                 @ log (''Done. Built and pushed images with tag '' @ tag @ ''.'')\<rparr>"

text \<open>The script after its arguments are parsed, and the whole script.\<close>

definition publish :: "build_env \<Rightarrow> string \<Rightarrow> workspace \<Rightarrow> workspace outcome" where
  "publish env wfile ws =
     (if unset_or_empty (DOCKERHUB_REPO env) then
        \<lparr>exit_code = 1, final = ws,
          trace = [Echo ''ERROR: set DOCKERHUB_REPO (example: myuser/myapp)'']\<rparr>
      else if unset_or_empty (DOCKERHUB_USERNAME env) \<or> unset_or_empty (DOCKERHUB_TOKEN env) then
        \<lparr>exit_code = 1, final = ws,
          trace = [Echo ''ERROR: set DOCKERHUB_USERNAME and DOCKERHUB_TOKEN (Docker Hub credentials)'']\<rparr>
      else
        (case compute_tag env of
           Inl st \<Rightarrow> \<lparr>exit_code = st, final = ws, trace = []\<rparr>
         | Inr tag \<Rightarrow>
             let repo = the (DOCKERHUB_REPO env);
                 t1 = log (''Using Docker Hub repo: '' @ repo) @ log (''Computed tag: '' @ tag)
             in (case build_images env repo tag ws t1 of
                   Inl ended \<Rightarrow> ended
                 | Inr (ws1, t2) \<Rightarrow>
                     (case update_workflow env tag wfile ws1 t2 of
                        Inl ended \<Rightarrow> ended
                      | Inr (ws2, t3) \<Rightarrow> cleanup tag ws2 t3))))"

definition build_and_push :: "build_env \<Rightarrow> string list \<Rightarrow> workspace \<Rightarrow> workspace outcome" where
  "build_and_push env args ws =
     (case parse_args args [] of
        Inl (st, t) \<Rightarrow> \<lparr>exit_code = st, final = ws, trace = t\<rparr>
      | Inr wfile \<Rightarrow> publish env wfile ws)"

text \<open>
  For comparison, the sanitisation in the words of the specification: the name in lower
  case, every run of non-alphanumeric characters replaced by a single hyphen.
\<close>

fun spec_run :: "bool \<Rightarrow> string \<Rightarrow> string" where
  "spec_run in_run [] = []"
| "spec_run in_run (c # cs) =
     (if is_alnum c then to_lower c # spec_run False cs
      else if in_run then spec_run True cs
      else CHR ''-'' # spec_run True cs)"

definition spec_sanitize :: "string \<Rightarrow> string" where
  "spec_sanitize s = spec_run False s"

text \<open>Pieces joined by a separator, to say what a replacement keeps and what it changes.\<close>

fun join :: "string \<Rightarrow> string list \<Rightarrow> string" where
  "join sep [] = []"
| "join sep [p] = p"
| "join sep (p # q # ps) = p @ sep @ join sep (q # ps)"

text \<open>
  One character of a sanitised name, said directly: a letter or digit in lower case, a
  hyphen for every other character.
\<close>

definition sanitize_char :: "char \<Rightarrow> char" where
  "sanitize_char c = (if is_alnum c then to_lower c else CHR ''-'')"


text \<open>The workflow file as the update step leaves it, whether the script goes on or ends.\<close>

definition patched_file :: "build_env \<Rightarrow> string \<Rightarrow> string \<Rightarrow> workspace \<Rightarrow> string list option" where
  "patched_file env tag wfile ws =
     (case update_workflow env tag wfile ws [] of
        Inl ended \<Rightarrow> files (final ended) wfile
      | Inr (ws1, t1) \<Rightarrow> files ws1 wfile)"
section \<open>Concrete environments\<close>

definition second_try :: "nat \<Rightarrow> curl_result" where
  "second_try i = (if i = 1 then \<lparr>curl_exit = 0, curl_out = ''200''\<rparr>
                   else \<lparr>curl_exit = 0, curl_out = ''500''\<rparr>)"

definition cmd_ok :: cmd_result where
  "cmd_ok = \<lparr>exit_status = 0, stdout = [], stderr = []\<rparr>"

definition cmd_failed :: "string \<Rightarrow> cmd_result" where
  "cmd_failed msg = \<lparr>exit_status = 1, stdout = [], stderr = [msg]\<rparr>"

definition http :: "string \<Rightarrow> curl_result" where
  "http code = \<lparr>curl_exit = 0, curl_out = code\<rparr>"

definition web_old :: container where
  "web_old = \<lparr>cname = ''server-app-1'', cimage = ''user/app:old0001'',
              cports = ''0.0.0.0:8080->8000/tcp'', running = True\<rparr>"

definition web_new :: container where
  "web_new = \<lparr>cname = ''server-app-1'', cimage = ''user/app:abc1234'',
              cports = ''0.0.0.0:8080->8000/tcp'', running = True\<rparr>"

definition host0 :: host where
  "host0 = \<lparr>override_file = Some (override_lines ''app'' ''user/app:old0001''),
            containers = [web_old]\<rparr>"

definition env_ok :: docker_env where
  "env_ok = \<lparr>env_HOME = Some ''/home/ubuntu'',
             env_DOCKERHUB_REPO = None,
             docker_pull = (\<lambda>img. cmd_ok),
             app_dir_ok = (\<lambda>d. True),
             compose_up = (\<lambda>h. (cmd_ok, [web_new])),
             compose_down = (\<lambda>h. (cmd_ok, [])),
             curl_get = (\<lambda>i. http ''200''),
             docker_ps = cmd_ok,
             compose_logs = cmd_ok,
             image_prune = cmd_ok,
             ps_all_ports = (\<lambda>ks. cmd_ok),
             ps_all_ancestor = (\<lambda>repo ks. cmd_ok),
             docker_stop = (\<lambda>c. cmd_ok),
             docker_rm = (\<lambda>c. cmd_ok),
             date_out = ''Tue Nov  3 10:00:00 UTC 2026''\<rparr>"

definition env_unhealthy :: docker_env where
  "env_unhealthy = env_ok\<lparr>curl_get := (\<lambda>i. http ''500'')\<rparr>"

definition env_prune_fails :: docker_env where
  "env_prune_fails = env_ok\<lparr>image_prune := cmd_failed ''Cannot connect to the Docker daemon''\<rparr>"

definition env_pull_fails :: docker_env where
  "env_pull_fails = env_ok\<lparr>docker_pull := (\<lambda>img. cmd_failed ''manifest unknown'')\<rparr>"

definition list_by_port :: "container list \<Rightarrow> cmd_result" where
  "list_by_port ks = \<lparr>exit_status = 0,
                       stdout = map (\<lambda>k. cname k @ [CHR 0x09] @ cports k) ks,
                       stderr = []\<rparr>"

definition env_removal_fails :: docker_env where
  "env_removal_fails =
     env_ok\<lparr>ps_all_ports := list_by_port,
            docker_stop := (\<lambda>c. cmd_failed ''Error response from daemon: cannot stop container''),
            docker_rm := (\<lambda>c. cmd_failed ''Error response from daemon: cannot remove container'')\<rparr>"

definition workflow_yml :: "string list" where
  "workflow_yml =
     [''env:'',
      ''  IMAGE_TAG: __IMAGE_TAG__'',
      ''  IMAGE: user/app:__IMAGE_TAG__ # __IMAGE_TAG__IMAGE_TAG__'']"

definition readme_md :: "string list" where
  "readme_md = [''# app'', ''tag: __IMAGE_TAG_'']"

definition ws0 :: workspace where
  "ws0 = \<lparr>image_override = None,
          files = (\<lambda>p. if p = ''.github/workflows/deploy-to-ec2.yml'' then Some workflow_yml
                        else if p = ''README.md'' then Some readme_md
                        else None)\<rparr>"

definition env_build_ok :: build_env where
  "env_build_ok =
     \<lparr>GITHUB_SHA = Some ''3f2a9c1d5e7b0a4c6d8e9f00112233445566778a'',
      DOCKERHUB_REPO = Some ''user/app'',
      DOCKERHUB_USERNAME = Some ''user'',
      DOCKERHUB_TOKEN = Some ''secret'',
      git_on_path = True,
      git_inside_work_tree = 0,
      git_short_head = (0, ''3f2a9c1'' @ [newline]),
      date_stamp = ''20261103100000'' @ [newline],
      compose_services = (0, ''app'' @ [newline]),
      compose_build = (\<lambda>override. cmd_ok),
      docker_login = cmd_ok,
      docker_push = (\<lambda>img. cmd_ok),
      sed_is_gnu = True,
      sed_special = (\<lambda>tag ls. (1, ls))\<rparr>"

definition env_fresh_repo :: build_env where
  "env_fresh_repo = env_build_ok\<lparr>GITHUB_SHA := None, git_short_head := (128, [])\<rparr>"

definition env_build_fails :: build_env where
  "env_build_fails = env_build_ok\<lparr>compose_build := (\<lambda>override. cmd_failed ''failed to solve'')\<rparr>"

section \<open>Properties of the polling loop\<close>

lemma strip_trailing_newlines_snoc:
  "c \<noteq> newline \<Longrightarrow> strip_trailing_newlines (s @ [c]) = s @ [c]"
  by (simp add: strip_trailing_newlines_def)

lemma strip_trailing_newlines_nl:
  "strip_trailing_newlines (s @ [newline]) = strip_trailing_newlines s"
  by (simp add: strip_trailing_newlines_def)

text \<open>A transport failure never reads as success: the captured text ends in \<open>000\<close>.\<close>

lemma transport_failure_not_200:
  assumes "curl_exit r \<noteq> 0"
  shows "status_code_of r \<noteq> ''200''"
proof
  assume "status_code_of r = ''200''"
  then have "rev (status_code_of r) = rev ''200''"
    by simp
  then show False
    using assms by (simp add: status_code_of_def strip_trailing_newlines_def newline_def)
qed

lemma attempts_append [simp]: "attempts (a @ b) = attempts a + attempts b"
  by (simp add: attempts_def)

lemma attempts_Nil [simp]: "attempts [] = 0"
  by (simp add: attempts_def)

lemma attempts_Cons_Echo [simp]: "attempts (Echo s # t) = attempts t"
  by (simp add: attempts_def)

lemma attempts_Cons_Output [simp]: "attempts (Output s # t) = attempts t"
  by (simp add: attempts_def)

lemma attempts_curl [simp]: "attempts (Cmd (curl_argv url) # t) = Suc (attempts t)"
  by (simp add: attempts_def curl_argv_def)

lemma attempts_sleep [simp]: "attempts (Cmd (''sleep'' # a) # t) = attempts t"
  by (simp add: attempts_def)

lemma attempts_docker [simp]: "attempts (Cmd (''docker'' # a) # t) = attempts t"
  by (simp add: attempts_def)

lemma attempts_map_Output [simp]: "attempts (map Output ls) = 0"
  by (induction ls) simp_all

lemma attempts_run_docker [simp]: "attempts (run_cmd (''docker'' # a) r) = 0"
  by (simp add: run_cmd_def)

lemma health_loop_failures:
  assumes "\<forall>j<m. status_code_of (curl (calls + j)) \<noteq> ''200''" and "n + m \<le> R"
  shows "\<exists>sc' t'. health_loop url R curl n calls sc t = health_loop url R curl (n + m) (calls + m) sc' t'
           \<and> attempts t' = attempts t + m
           \<and> (m = 0 \<longrightarrow> sc' = sc)
           \<and> (0 < m \<longrightarrow> sc' = Some (status_code_of (curl (calls + m - 1))))"
  using assms
proof (induction m arbitrary: n calls sc t)
  case 0
  show ?case
    by (rule exI [of _ sc], rule exI [of _ t]) simp
next
  case (Suc m)
  let ?code = "status_code_of (curl calls)"
  let ?t1 = "t @ [Cmd (curl_argv url)] @ [Echo (attempt_msg (n + 1) R ?code), Cmd [''sleep'', show_nat HEALTH_WAIT]]"
  have bad: "?code \<noteq> ''200''"
    using Suc.prems(1) by (metis add.right_neutral zero_less_Suc)
  have lt: "\<not> n \<ge> R"
    using Suc.prems(2) by simp
  have step: "health_loop url R curl n calls sc t = health_loop url R curl (n + 1) (calls + 1) (Some ?code) ?t1"
    using bad lt by (subst health_loop.simps) (simp add: Let_def)
  have rest: "\<forall>j<m. status_code_of (curl (calls + 1 + j)) \<noteq> ''200''"
    using Suc.prems(1) by (metis Suc_less_eq add_Suc_right add_Suc_shift plus_1_eq_Suc add.commute)
  have bound: "n + 1 + m \<le> R"
    using Suc.prems(2) by simp
  from Suc.IH [OF rest bound, of "Some ?code" ?t1]
  obtain sc' t' where
    run: "health_loop url R curl (n + 1) (calls + 1) (Some ?code) ?t1
            = health_loop url R curl (n + 1 + m) (calls + 1 + m) sc' t'"
    and att: "attempts t' = attempts ?t1 + m"
    and z: "m = 0 \<longrightarrow> sc' = Some ?code"
    and p: "0 < m \<longrightarrow> sc' = Some (status_code_of (curl (calls + 1 + m - 1)))"
    by blast
  have "health_loop url R curl n calls sc t = health_loop url R curl (n + Suc m) (calls + Suc m) sc' t'"
    using step run by simp
  moreover have "attempts t' = attempts t + Suc m"
    using att by simp
  moreover have "sc' = Some (status_code_of (curl (calls + Suc m - 1)))"
    using z p by (cases m) simp_all
  ultimately show ?case by blast
qed

text \<open>
  Claim C2. When the k-th attempt (1 \<le> k \<le> R) is the first whose status is 200, the loop
  makes exactly k GET attempts and stops there with status 200: its last event is the
  success message, and the retry budget is not used up. With R = 3 and a responder that
  answers 200 on the second attempt, two attempts are made.
\<close>

theorem health_check_first_success:
  assumes "1 \<le> k" and "k \<le> R"
    and "\<forall>j<k - 1. status_code_of (curl j) \<noteq> ''200''"
    and "status_code_of (curl (k - 1)) = ''200''"
  shows "fst (health_check url R curl) = Some ''200''
       \<and> attempts (snd (health_check url R curl)) = k
       \<and> last (snd (health_check url R curl)) = Echo ''Health check passed!''"
proof -
  have fails: "\<forall>j<k - 1. status_code_of (curl (0 + j)) \<noteq> ''200''"
    using assms(3) by simp
  have bound: "0 + (k - 1) \<le> R"
    using assms(2) by simp
  from health_loop_failures [OF fails bound, of url None "[]"]
  obtain sc' t' where
    run: "health_loop url R curl 0 0 None [] = health_loop url R curl (k - 1) (k - 1) sc' t'"
    and att: "attempts t' = k - 1"
    by auto
  have lt: "\<not> k - 1 \<ge> R"
    using assms(1,2) by simp
  have final: "health_loop url R curl (k - 1) (k - 1) sc' t'
                 = (Some ''200'', (t' @ [Cmd (curl_argv url)]) @ [Echo ''Health check passed!''])"
    using lt assms(4) by (subst health_loop.simps) (simp add: Let_def)
  have "health_check url R curl = (Some ''200'', (t' @ [Cmd (curl_argv url)]) @ [Echo ''Health check passed!''])"
    using run final by (simp add: health_check_def)
  then show ?thesis
    using att assms(1) by simp
qed

lemma status_code_of_examples: "status_code_of \<lparr>curl_exit = 0, curl_out = ''200''\<rparr> = ''200''"
  "status_code_of \<lparr>curl_exit = 0, curl_out = ''500''\<rparr> = ''500''"
  by (simp_all add: status_code_of_def strip_trailing_newlines_def newline_def)

theorem health_check_first_success_witness:
  "fst (health_check HEALTH_URL 3 second_try) = Some ''200''
     \<and> attempts (snd (health_check HEALTH_URL 3 second_try)) = 2
     \<and> last (snd (health_check HEALTH_URL 3 second_try)) = Echo ''Health check passed!''"
  using health_check_first_success [of 2 3 second_try HEALTH_URL]
  by (simp add: second_try_def status_code_of_examples)

lemma health_check_exhausted:
  assumes "0 < R" and "\<forall>j<R. status_code_of (curl j) \<noteq> ''200''"
  shows "\<exists>code. fst (health_check url R curl) = Some code \<and> code \<noteq> ''200''
            \<and> attempts (snd (health_check url R curl)) = R"
proof -
  have fails: "\<forall>j<R. status_code_of (curl (0 + j)) \<noteq> ''200''"
    using assms(2) by simp
  from health_loop_failures [OF fails, of 0 R url None "[]"]
  obtain sc' t' where
    run: "health_loop url R curl 0 0 None [] = health_loop url R curl R R sc' t'"
    and att: "attempts t' = R"
    and sc: "sc' = Some (status_code_of (curl (R - 1)))"
    using assms(1) by auto
  have "health_loop url R curl R R sc' t' = (sc', t')"
    by (subst health_loop.simps) simp
  then have "health_check url R curl = (Some (status_code_of (curl (R - 1))), t')"
    using run sc by (simp add: health_check_def)
  moreover have "status_code_of (curl (R - 1)) \<noteq> ''200''"
    using assms by simp
  ultimately show ?thesis
    using att by simp
qed

lemma verify_unhealthy:
  assumes "code \<noteq> ''200''"
  shows "\<exists>post. trace (verify env R h (Some code) t)
             = t @ [Echo (''Health check failed after '' @ show_nat R @ '' attempts''),
                    Echo [], Echo ''Container status:''] @ Cmd ps_argv # post
          \<and> attempts post = 0
          \<and> (exit_status (docker_ps env) = 0 \<longrightarrow> Cmd logs_argv \<in> set post)
          \<and> (exit_status (docker_ps env) \<noteq> 0 \<longrightarrow> Cmd logs_argv \<notin> set post)"
  using assms
  by (auto simp add: verify_def Let_def run_cmd_def ps_argv_def logs_argv_def)

lemma verify_unhealthy_exit:
  assumes "code \<noteq> ''200''"
  shows "exit_code (verify env R h (Some code) t) \<noteq> 0
       \<and> final (verify env R h (Some code) t) = h
       \<and> (exit_status (docker_ps env) \<noteq> 0 \<longrightarrow>
            exit_code (verify env R h (Some code) t) = exit_status (docker_ps env))"
  using assms by (simp add: verify_def Let_def)

lemma transport_failure_reads_000:
  assumes "curl_exit r \<noteq> 0"
  shows "status_code_of r = curl_out r @ ''000''"
  using assms by (simp add: status_code_of_def strip_trailing_newlines_def newline_def)

lemma poll_and_verify_no_attempt:
  "attempts (trace (poll_and_verify url env 0 h t)) = attempts t
   \<and> exit_code (poll_and_verify url env 0 h t) \<noteq> 0
   \<and> final (poll_and_verify url env 0 h t) = h"
  by (simp add: poll_and_verify_def health_check_def health_loop.simps verify_def)

lemma poll_and_verify_exhausted:
  assumes "0 < R" and "\<forall>j<R. status_code_of (curl_get env j) \<noteq> ''200''"
  shows "\<exists>pre post. trace (poll_and_verify url env R h t) = t @ pre @ Cmd ps_argv # post
           \<and> attempts pre = R \<and> attempts post = 0
           \<and> (exit_status (docker_ps env) = 0 \<longrightarrow> Cmd logs_argv \<in> set post)
           \<and> (exit_status (docker_ps env) \<noteq> 0 \<longrightarrow>
                 Cmd logs_argv \<notin> set post
                 \<and> exit_code (poll_and_verify url env R h t) = exit_status (docker_ps env))
           \<and> exit_code (poll_and_verify url env R h t) \<noteq> 0
           \<and> final (poll_and_verify url env R h t) = h"
proof -
  obtain code where c: "fst (health_check url R (curl_get env)) = Some code" "code \<noteq> ''200''"
    and att: "attempts (snd (health_check url R (curl_get env))) = R"
    using health_check_exhausted [OF assms] by blast
  let ?lp = "snd (health_check url R (curl_get env))"
  let ?t = "t @ [Echo ''Running health checks...''] @ ?lp"
  have pv: "poll_and_verify url env R h t = verify env R h (Some code) ?t"
    using c(1) by (simp add: poll_and_verify_def Let_def)
  obtain post where tr: "trace (verify env R h (Some code) ?t)
             = ?t @ [Echo (''Health check failed after '' @ show_nat R @ '' attempts''),
                    Echo [], Echo ''Container status:''] @ Cmd ps_argv # post"
    and p0: "attempts post = 0"
    and lg: "exit_status (docker_ps env) = 0 \<longrightarrow> Cmd logs_argv \<in> set post"
    and nl: "exit_status (docker_ps env) \<noteq> 0 \<longrightarrow> Cmd logs_argv \<notin> set post"
    using verify_unhealthy [OF c(2)] by blast
  let ?pre = "[Echo ''Running health checks...''] @ ?lp
                @ [Echo (''Health check failed after '' @ show_nat R @ '' attempts''),
                   Echo [], Echo ''Container status:'']"
  have "trace (poll_and_verify url env R h t) = t @ ?pre @ Cmd ps_argv # post"
    using pv tr by simp
  moreover have "attempts ?pre = R"
    using att by simp
  ultimately show ?thesis
    using p0 lg nl verify_unhealthy_exit [OF c(2), of env R h ?t] pv by metis
qed


lemma status_code_of_http [simp]:
  "status_code_of (http ''200'') = ''200''" "status_code_of (http ''500'') = ''500''"
  by (simp_all add: http_def status_code_of_def strip_trailing_newlines_def newline_def)

lemma env_unhealthy_fields:
  "curl_get env_unhealthy = (\<lambda>i. http ''500'')" "docker_ps env_unhealthy = cmd_ok"
  by (simp_all add: env_unhealthy_def env_ok_def)


lemma verify_healthy:
  "exit_code (verify env R h (Some ''200'') t) = exit_status (image_prune env)
   \<and> Cmd prune_argv \<in> set (trace (verify env R h (Some ''200'') t))
   \<and> final (verify env R h (Some ''200'') t) = h"
  by (simp add: verify_def Let_def run_cmd_def)

text \<open>
  Claim C8, amended. When the polling loop ends with status 200, the script goes on to
  \<^verbatim>\<open>docker image prune -f\<close>, and the exit status of the rollout is the exit status of
  that command: 0 when the prune succeeds, the prune's own non-zero status when it fails
  (\<^verbatim>\<open>set -e\<close>, and no \<^verbatim>\<open>|| true\<close> on that line). The host is not changed by this step.
\<close>

theorem healthy_exit_is_prune_status:
  assumes "fst (health_check url R (curl_get env)) = Some ''200''"
  shows "exit_code (poll_and_verify url env R h t) = exit_status (image_prune env)
       \<and> Cmd prune_argv \<in> set (trace (poll_and_verify url env R h t))
       \<and> final (poll_and_verify url env R h t) = h"
  using assms verify_healthy by (simp add: poll_and_verify_def Let_def)

text \<open>
  Witness for C8: a healthy rollout whose prune succeeds.
\<close>

theorem healthy_exit_is_prune_status_witness:
  "fst (health_check HEALTH_URL 15 (curl_get env_ok)) = Some ''200''
   \<and> exit_code (poll_and_verify HEALTH_URL env_ok 15 host0 []) = 0
   \<and> Cmd prune_argv \<in> set (trace (poll_and_verify HEALTH_URL env_ok 15 host0 []))
   \<and> final (poll_and_verify HEALTH_URL env_ok 15 host0 []) = host0"
proof -
  have h: "fst (health_check HEALTH_URL 15 (curl_get env_ok)) = Some ''200''"
    by (simp add: health_check_def health_loop.simps env_ok_def)
  show ?thesis
    using h healthy_exit_is_prune_status [OF h, of host0 "[]"]
    by (simp add: env_ok_def cmd_ok_def)
qed

text \<open>
  Counterexample to C8 as stated: the first attempt answers 200, the pull and the start
  succeed, the prune fails with status 1, and the whole script exits 1.
\<close>

theorem prune_failure_counterexample:
  "fst (health_check HEALTH_URL HEALTH_RETRIES (curl_get env_prune_fails)) = Some ''200''
   \<and> exit_code (deploy env_prune_fails [''user/app:abc1234''] host0) = 1"
  by code_simp

lemma commands_append [simp]: "commands (a @ b) = commands a @ commands b"
  by (induction a rule: commands.induct) simp_all

lemma commands_map_Output [simp]: "commands (map Output ls) = []"
  by (induction ls) simp_all

text \<open>
  Claim C10. When \<^verbatim>\<open>docker pull\<close> fails, the script ends at once with the pull's non-zero
  status: the pull is the only external command it started, and the host, that is the
  override manifest and the containers, is exactly as before the invocation.
\<close>

theorem pull_failure_changes_nothing:
  assumes "arg_or args 0 [] \<noteq> []"
    and "exit_status (docker_pull env (arg_or args 0 [])) \<noteq> 0"
  shows "exit_code (deploy_with R env args h) = exit_status (docker_pull env (arg_or args 0 []))
       \<and> exit_code (deploy_with R env args h) \<noteq> 0
       \<and> final (deploy_with R env args h) = h
       \<and> commands (trace (deploy_with R env args h)) = [pull_argv (arg_or args 0 [])]"
  using assms
  by (simp add: deploy_with_def Let_def run_cmd_def start_lines_def banner_def)

text \<open>
  Witness for C10: a host with an earlier override manifest and a running container, and a
  registry that does not know the image.
\<close>

theorem pull_failure_changes_nothing_witness:
  "arg_or [''user/app:abc1234''] 0 [] = ''user/app:abc1234''
   \<and> exit_status (docker_pull env_pull_fails ''user/app:abc1234'') = 1
   \<and> exit_code (deploy_with 15 env_pull_fails [''user/app:abc1234''] host0) = 1
   \<and> final (deploy_with 15 env_pull_fails [''user/app:abc1234''] host0) = host0
   \<and> commands (trace (deploy_with 15 env_pull_fails [''user/app:abc1234''] host0))
        = [pull_argv ''user/app:abc1234'']"
  using pull_failure_changes_nothing [of "[''user/app:abc1234'']" env_pull_fails 15 host0]
  by (simp add: arg_or_def env_pull_fails_def env_ok_def cmd_failed_def)

section \<open>Properties of the strict supersession step\<close>

lemma stop_rm_loop_step:
  assumes "c \<noteq> []"
  shows "\<exists>ks'. stop_rm_loop env (c # cs) ks t
           = stop_rm_loop env cs ks'
               (t @ [announce c] @ run_cmd_quiet (stop_argv c) (docker_stop env c)
                  @ run_cmd_quiet (rm_argv c) (docker_rm env c))"
  using assms by (simp add: Let_def del: append.simps) blast

lemma stop_rm_loop_keeps: "set t \<subseteq> set (snd (stop_rm_loop env cs ks t))"
proof (induction cs arbitrary: ks t)
  case Nil
  then show ?case by simp
next
  case (Cons c cs)
  show ?case
  proof (cases "c = []")
    case True
    then show ?thesis using Cons.IH by simp
  next
    case False
    let ?t1 = "t @ [announce c] @ run_cmd_quiet (stop_argv c) (docker_stop env c)
                 @ run_cmd_quiet (rm_argv c) (docker_rm env c)"
    obtain ks' where step: "stop_rm_loop env (c # cs) ks t = stop_rm_loop env cs ks' ?t1"
      using stop_rm_loop_step [OF False] by blast
    have "set t \<subseteq> set ?t1"
      by auto
    also have "\<dots> \<subseteq> set (snd (stop_rm_loop env cs ks' ?t1))"
      by (rule Cons.IH)
    finally show ?thesis
      by (simp only: step)
  qed
qed

lemma stop_rm_loop_attempts_all:
  assumes "c \<in> set cs" and "c \<noteq> []"
  shows "announce c \<in> set (snd (stop_rm_loop env cs ks t))
       \<and> Cmd (stop_argv c) \<in> set (snd (stop_rm_loop env cs ks t))
       \<and> Cmd (rm_argv c) \<in> set (snd (stop_rm_loop env cs ks t))"
  using assms
proof (induction cs arbitrary: ks t)
  case Nil
  then show ?case by simp
next
  case (Cons a cs)
  show ?case
  proof (cases "a = []")
    case True
    then have "c \<in> set cs" using Cons.prems by auto
    then show ?thesis using True Cons.IH Cons.prems(2) by simp
  next
    case False
    let ?t1 = "t @ [announce a] @ run_cmd_quiet (stop_argv a) (docker_stop env a)
                 @ run_cmd_quiet (rm_argv a) (docker_rm env a)"
    obtain ks' where step: "stop_rm_loop env (a # cs) ks t = stop_rm_loop env cs ks' ?t1"
      using stop_rm_loop_step [OF False] by blast
    show ?thesis
    proof (cases "c = a")
      case True
      have "announce c \<in> set ?t1" "Cmd (stop_argv c) \<in> set ?t1" "Cmd (rm_argv c) \<in> set ?t1"
        using True by (simp_all add: run_cmd_quiet_def)
      moreover have "set ?t1 \<subseteq> set (snd (stop_rm_loop env cs ks' ?t1))"
        by (rule stop_rm_loop_keeps)
      ultimately show ?thesis
        unfolding step by blast
    next
      case False
      then have "c \<in> set cs" using Cons.prems by auto
      from Cons.IH [OF this Cons.prems(2)] show ?thesis
        unfolding step by blast
    qed
  qed
qed

lemma stop_rm_loop_containers:
  "fst (stop_rm_loop env cs ks t) = fst (stop_rm_loop env cs ks [])"
proof (induction cs arbitrary: ks t)
  case Nil
  then show ?case by simp
next
  case (Cons c cs)
  show ?case
  proof (cases "c = []")
    case True
    then show ?thesis using Cons.IH by simp
  next
    case False
    then show ?thesis
      using Cons.IH [of _ "t @ [announce c] @ run_cmd_quiet (stop_argv c) (docker_stop env c)
                 @ run_cmd_quiet (rm_argv c) (docker_rm env c)"]
            Cons.IH [of _ "[] @ [announce c] @ run_cmd_quiet (stop_argv c) (docker_stop env c)
                 @ run_cmd_quiet (rm_argv c) (docker_rm env c)"]
      by (simp add: Let_def)
  qed
qed

lemma supersede_keeps: "set t \<subseteq> set (snd (supersede env h t))"
proof -
  let ?t1 = "t @ [Echo ''Stopping existing containers...'',
                    Echo ''   Removing all containers using port 8080...'',
                    Cmd ps_ports_argv]
                 @ map Output (stderr (ps_all_ports env (containers h)))"
  let ?p1 = "stop_rm_loop env (port_matches env (containers h)) (containers h) ?t1"
  let ?t2 = "snd ?p1
                 @ [Echo (''   Removing containers with image: '' @ ancestor_repo env @ ''...''),
                    Cmd (ps_ancestor_argv (ancestor_repo env))]
                 @ map Output (stderr (ps_all_ancestor env (ancestor_repo env) (fst ?p1)))"
  let ?p2 = "stop_rm_loop env (ancestor_matches env (fst ?p1)) (fst ?p1) ?t2"
  have "set t \<subseteq> set ?t1" by auto
  also have "\<dots> \<subseteq> set (snd ?p1)" by (rule stop_rm_loop_keeps)
  also have "\<dots> \<subseteq> set ?t2" by auto
  also have "\<dots> \<subseteq> set (snd ?p2)" by (rule stop_rm_loop_keeps)
  also have "\<dots> \<subseteq> set (snd (supersede env h t))"
  proof -
    have "snd (supersede env h t)
            = snd ?p2 @ run_cmd_quiet down_argv (fst (compose_down env (h\<lparr>containers := fst ?p2\<rparr>)))"
      by (simp add: supersede_def Let_def)
    then show ?thesis by simp
  qed
  finally show ?thesis .
qed

lemma supersede_attempts_all:
  assumes "c \<noteq> []"
    and "c \<in> set (port_matches env (containers h))
         \<or> c \<in> set (ancestor_matches env (after_port_pass env (containers h)))"
  shows "announce c \<in> set (snd (supersede env h t))
       \<and> Cmd (stop_argv c) \<in> set (snd (supersede env h t))
       \<and> Cmd (rm_argv c) \<in> set (snd (supersede env h t))"
proof -
  let ?t1 = "t @ [Echo ''Stopping existing containers...'',
                    Echo ''   Removing all containers using port 8080...'',
                    Cmd ps_ports_argv]
                 @ map Output (stderr (ps_all_ports env (containers h)))"
  let ?p1 = "stop_rm_loop env (port_matches env (containers h)) (containers h) ?t1"
  let ?t2 = "snd ?p1
                 @ [Echo (''   Removing containers with image: '' @ ancestor_repo env @ ''...''),
                    Cmd (ps_ancestor_argv (ancestor_repo env))]
                 @ map Output (stderr (ps_all_ancestor env (ancestor_repo env) (fst ?p1)))"
  let ?p2 = "stop_rm_loop env (ancestor_matches env (fst ?p1)) (fst ?p1) ?t2"
  have ks1: "fst ?p1 = after_port_pass env (containers h)"
    unfolding after_port_pass_def by (rule stop_rm_loop_containers)
  have "snd (supersede env h t)
          = snd ?p2 @ run_cmd_quiet down_argv (fst (compose_down env (h\<lparr>containers := fst ?p2\<rparr>)))"
    by (simp add: supersede_def Let_def)
  then have final: "set (snd ?p2) \<subseteq> set (snd (supersede env h t))"
    by simp
  have mid: "set (snd ?p1) \<subseteq> set (snd ?p2)"
    using stop_rm_loop_keeps [of ?t2 env "ancestor_matches env (fst ?p1)" "fst ?p1"] by auto
  from assms(2) show ?thesis
  proof
    assume "c \<in> set (port_matches env (containers h))"
    from stop_rm_loop_attempts_all [OF this assms(1), of env "containers h" ?t1]
    show ?thesis using mid final by blast
  next
    assume "c \<in> set (ancestor_matches env (after_port_pass env (containers h)))"
    then have "c \<in> set (ancestor_matches env (fst ?p1))" using ks1 by simp
    from stop_rm_loop_attempts_all [OF this assms(1), of env "fst ?p1" ?t2]
    show ?thesis using final by blast
  qed
qed

lemma verify_keeps: "set t \<subseteq> set (trace (verify env R h sc t))"
  by (auto simp add: verify_def Let_def split: option.splits)

lemma poll_and_verify_keeps: "set t \<subseteq> set (trace (poll_and_verify url env R h t))"
  using verify_keeps [of "t @ [Echo ''Running health checks...''] @ snd (health_check url R (curl_get env))"]
  by (auto simp add: poll_and_verify_def Let_def)

lemma with_removal_errors_fields:
  "env_HOME (with_removal_errors ea eb env) = env_HOME env"
  "env_DOCKERHUB_REPO (with_removal_errors ea eb env) = env_DOCKERHUB_REPO env"
  "docker_pull (with_removal_errors ea eb env) = docker_pull env"
  "app_dir_ok (with_removal_errors ea eb env) = app_dir_ok env"
  "compose_up (with_removal_errors ea eb env) = compose_up env"
  "compose_down (with_removal_errors ea eb env) = compose_down env"
  "curl_get (with_removal_errors ea eb env) = curl_get env"
  "docker_ps (with_removal_errors ea eb env) = docker_ps env"
  "compose_logs (with_removal_errors ea eb env) = compose_logs env"
  "image_prune (with_removal_errors ea eb env) = image_prune env"
  "ps_all_ports (with_removal_errors ea eb env) = ps_all_ports env"
  "ps_all_ancestor (with_removal_errors ea eb env) = ps_all_ancestor env"
  "date_out (with_removal_errors ea eb env) = date_out env"
  "exit_status (docker_stop (with_removal_errors ea eb env) c) = exit_status (docker_stop env c)"
  "stdout (docker_stop (with_removal_errors ea eb env) c) = stdout (docker_stop env c)"
  "exit_status (docker_rm (with_removal_errors ea eb env) c) = exit_status (docker_rm env c)"
  "stdout (docker_rm (with_removal_errors ea eb env) c) = stdout (docker_rm env c)"
  by (simp_all add: with_removal_errors_def)

lemma stop_rm_loop_silent:
  "stop_rm_loop (with_removal_errors ea eb env) cs ks t = stop_rm_loop env cs ks t"
  by (induction cs arbitrary: ks t)
     (simp_all add: with_removal_errors_fields run_cmd_quiet_def Let_def)

lemma supersede_silent: "supersede (with_removal_errors ea eb env) h t = supersede env h t"
  by (simp add: supersede_def stop_rm_loop_silent with_removal_errors_fields port_matches_def
        ancestor_matches_def ancestor_repo_def)

lemma verify_silent: "verify (with_removal_errors ea eb env) R h sc t = verify env R h sc t"
  by (simp add: verify_def with_removal_errors_fields Let_def split: option.splits)

lemma poll_and_verify_silent:
  "poll_and_verify url (with_removal_errors ea eb env) R h t = poll_and_verify url env R h t"
  by (simp add: poll_and_verify_def verify_silent with_removal_errors_fields)

lemma deploy_strict_silent:
  "deploy_strict_with R (with_removal_errors ea eb env) args h = deploy_strict_with R env args h"
  by (simp add: deploy_strict_with_def strict_app_dir_def supersede_silent poll_and_verify_silent
        with_removal_errors_fields Let_def cong: if_cong split: option.splits)



lemma env_removal_fails_matches:
  "port_matches env_removal_fails (containers host0) = [''server-app-1'']"
  by code_simp



section \<open>Properties of the Image Publisher\<close>

lemma to_lower_upper: "is_upper c \<Longrightarrow> is_lower (to_lower c)"
  by (simp add: is_upper_def is_lower_def to_lower_def)

lemma to_lower_is_alnum: "is_alnum (to_lower c) = is_alnum c"
proof (cases "is_upper c")
  case True
  then show ?thesis using to_lower_upper [OF True] by (simp add: is_alnum_def)
next
  case False
  then show ?thesis by (simp add: to_lower_def)
qed

lemma dash_not_alnum: "\<not> is_alnum (CHR ''-'')"
  by (simp add: is_alnum_def is_upper_def is_lower_def is_digit_def)

lemma newline_not_alnum: "\<not> is_alnum newline" "to_lower newline = newline" "newline \<noteq> CHR ''-''"
  by (simp_all add: is_alnum_def is_upper_def is_lower_def is_digit_def newline_def to_lower_def)

lemma tr_char:
  "(if is_alnum (to_lower c) \<or> to_lower c = CHR ''-'' then to_lower c else CHR ''-'') = sanitize_char c"
  by (auto simp add: sanitize_char_def to_lower_is_alnum)

lemma tr_pipeline: "tr_c_alnum_dash (tr_upper_lower s) = map sanitize_char s"
  by (induction s) (simp_all add: tr_c_alnum_dash_def tr_upper_lower_def tr_char)

lemma sanitize_char_newline: "sanitize_char newline = CHR ''-''"
  by (simp add: sanitize_char_def newline_not_alnum)

lemma S_SAFE_eq: "S_SAFE s = map sanitize_char s @ ''-''"
proof -
  have "tr_c_alnum_dash (tr_upper_lower (s @ [newline])) = map sanitize_char s @ [CHR ''-'']"
    by (simp add: tr_pipeline sanitize_char_newline)
  moreover have "CHR ''-'' \<noteq> newline"
    by (simp add: newline_def)
  ultimately show ?thesis
    by (simp add: S_SAFE_def strip_trailing_newlines_snoc)
qed

lemma sanitize_char_range: "is_lower (sanitize_char c) \<or> is_digit (sanitize_char c) \<or> sanitize_char c = CHR ''-''"
proof (cases "is_alnum c")
  case False
  then show ?thesis by (simp add: sanitize_char_def)
next
  case True
  then have "is_upper c \<or> is_lower c \<or> is_digit c" by (simp add: is_alnum_def)
  then show ?thesis
  proof (elim disjE)
    assume "is_upper c"
    then show ?thesis using True to_lower_upper by (simp add: sanitize_char_def)
  next
    assume l: "is_lower c"
    then have "\<not> is_upper c" by (simp add: is_lower_def is_upper_def)
    then show ?thesis using True l by (simp add: sanitize_char_def to_lower_def)
  next
    assume d: "is_digit c"
    then have "\<not> is_upper c" by (simp add: is_digit_def is_upper_def)
    then show ?thesis using True d by (simp add: sanitize_char_def to_lower_def)
  qed
qed

lemma S_SAFE_range: "c \<in> set (S_SAFE s) \<Longrightarrow> is_lower c \<or> is_digit c \<or> c = CHR ''-''"
  using sanitize_char_range by (auto simp add: S_SAFE_eq)

text \<open>
  Claim C4 fails on the code for every manifest with more than one service. A manifest
  with one line gives \<open>repo:tag\<close>, as claimed. Otherwise the reference of each service is
  \<open>repo-<suffix>:tag\<close> where the suffix is the name, letters and digits in lower case and
  a hyphen for every other character one for one, followed by one more hyphen: \<^verbatim>\<open>tr -c\<close>
  also replaces the newline that \<^verbatim>\<open>echo\<close> adds. The services \<^verbatim>\<open>web\<close> and \<^verbatim>\<open>db\<close> get the
  references \<^verbatim>\<open>user/app-web-:3f2a9c1\<close> and \<^verbatim>\<open>user/app-db-:3f2a9c1\<close>, where the claim's rule
  gives the suffixes \<^verbatim>\<open>web\<close> and \<^verbatim>\<open>db\<close>.
\<close>

theorem image_names_trailing_hyphen:
  "image_names repo tag SERVICES =
     (if num_lines SERVICES = 1 then [repo @ '':'' @ tag]
      else map (\<lambda>s. repo @ ''-'' @ map sanitize_char s @ ''-'' @ '':'' @ tag) (shell_words SERVICES))
   \<and> image_names ''user/app'' ''3f2a9c1'' (''web'' @ [newline] @ ''db'')
       = [''user/app-web-:3f2a9c1'', ''user/app-db-:3f2a9c1'']
   \<and> spec_sanitize ''web'' = ''web''
   \<and> spec_sanitize ''db'' = ''db''"
proof -
  have general: "image_names repo tag SERVICES =
     (if num_lines SERVICES = 1 then [repo @ '':'' @ tag]
      else map (\<lambda>s. repo @ ''-'' @ map sanitize_char s @ ''-'' @ '':'' @ tag) (shell_words SERVICES))"
    by (simp add: image_names_def S_SAFE_eq)
  have at_web_db: "image_names ''user/app'' ''3f2a9c1'' (''web'' @ [newline] @ ''db'')
       = [''user/app-web-:3f2a9c1'', ''user/app-db-:3f2a9c1'']"
    by code_simp
  have spec: "spec_sanitize ''web'' = ''web''" "spec_sanitize ''db'' = ''db''"
    by code_simp+
  show ?thesis
    using general at_web_db spec by simp
qed

text \<open>
  Nor are runs collapsed, since \<^verbatim>\<open>tr\<close> runs without \<^verbatim>\<open>-s\<close>: the name \<^verbatim>\<open>my_.svc\<close> gets
  the suffix \<^verbatim>\<open>my--svc-\<close>, where the claim's rule gives \<^verbatim>\<open>my-svc\<close>.
\<close>

lemma S_SAFE_keeps_runs:
  "S_SAFE ''my_.svc'' = ''my--svc-'' \<and> spec_sanitize ''my_.svc'' = ''my-svc''"
  by code_simp

lemma join_Cons_nonempty: "ps \<noteq> [] \<Longrightarrow> join sep (p # ps) = p @ sep @ join sep ps"
  by (cases ps) simp_all

lemma join_Cons_char: "ps \<noteq> [] \<Longrightarrow> join sep ((c # hd ps) # tl ps) = c # join sep ps"
proof (cases ps)
  case Nil
  assume "ps \<noteq> []"
  with Nil show ?thesis by simp
next
  case (Cons p qs)
  then show ?thesis by (cases qs) simp_all
qed

lemma prefix_hd_join: "ps \<noteq> [] \<Longrightarrow> prefix (hd ps) (join sep ps)"
proof (cases ps)
  case Nil
  assume "ps \<noteq> []"
  with Nil show ?thesis by simp
next
  case (Cons p qs)
  then show ?thesis by (cases qs) simp_all
qed

lemma gsub_pieces:
  assumes "pat \<noteq> []"
  shows "\<exists>ps. ps \<noteq> [] \<and> s = join pat ps \<and> gsub pat rep s = join rep ps
              \<and> (\<forall>p\<in>set ps. \<not> contains pat p)"
  using assms
proof (induction pat rep s rule: gsub.induct)
  case (1 pat rep)
  have "[[]] \<noteq> [] \<and> [] = join pat [[]] \<and> gsub pat rep [] = join rep [[]]
          \<and> (\<forall>p\<in>set [[]]. \<not> contains pat p)"
    using 1 by simp
  then show ?case by blast
next
  case (2 pat rep c cs)
  show ?case
  proof (cases "prefix pat (c # cs)")
    case True
    then obtain rest where rest: "c # cs = pat @ rest"
      by (auto simp add: prefix_def)
    have "drop (length pat) (c # cs) = rest"
      using rest by simp
    moreover have "drop (length pat) (c # cs) = drop (length pat - 1) cs"
      using 2 by (cases pat) simp_all
    ultimately have d: "drop (length pat - 1) cs = rest"
      by simp
    from "2.IH"(1) [OF True "2.prems"] d
    obtain ps where ps: "ps \<noteq> []" "rest = join pat ps" "gsub pat rep rest = join rep ps"
      "\<forall>p\<in>set ps. \<not> contains pat p"
      by auto
    have "[] # ps \<noteq> []" by simp
    moreover have "c # cs = join pat ([] # ps)"
      using rest ps(1,2) by (simp add: join_Cons_nonempty)
    moreover have "gsub pat rep (c # cs) = join rep ([] # ps)"
      using True d ps(1,3) by (simp add: join_Cons_nonempty)
    moreover have "\<forall>p\<in>set ([] # ps). \<not> contains pat p"
      using ps(4) "2.prems" by simp
    ultimately show ?thesis by blast
  next
    case False
    from "2.IH"(2) [OF False "2.prems"]
    obtain ps where ps: "ps \<noteq> []" "cs = join pat ps" "gsub pat rep cs = join rep ps"
      "\<forall>p\<in>set ps. \<not> contains pat p"
      by auto
    let ?qs = "(c # hd ps) # tl ps"
    have "?qs \<noteq> []" by simp
    moreover have "c # cs = join pat ?qs"
      using ps(1,2) by (simp add: join_Cons_char)
    moreover have "gsub pat rep (c # cs) = join rep ?qs"
      using False ps(1,3) by (simp add: join_Cons_char)
    moreover have "\<forall>p\<in>set ?qs. \<not> contains pat p"
    proof -
      have "prefix (c # hd ps) (c # cs)"
        using prefix_hd_join [OF ps(1), of pat] ps(2) by simp
      then have "\<not> prefix pat (c # hd ps)"
        using False prefix_order.trans by blast
      moreover have "\<not> contains pat (hd ps)"
        using ps(1,4) by simp
      moreover have "set (tl ps) \<subseteq> set ps"
        using ps(1) by (cases ps) auto
      ultimately show ?thesis
        using ps(4) by auto
    qed
    ultimately show ?thesis by blast
  qed
qed

lemma sed_literal_plain: "sed_literal tag \<Longrightarrow> sed_plain tag"
  by (simp add: sed_literal_def sed_plain_def list_all_iff)

lemma replacement_text_literal: "sed_literal tag \<Longrightarrow> replacement_text m tag = tag"
  by (induction tag) (simp_all add: sed_literal_def replacement_text_def)

lemma workflow_patch_literal:
  assumes "wfile \<noteq> []" and "files ws wfile = Some ls" and "sed_literal tag"
  shows "\<exists>ws' t'. update_workflow env tag wfile ws t = Inr (ws', t')
           \<and> image_override ws' = image_override ws
           \<and> (\<forall>p. p \<noteq> wfile \<longrightarrow> files ws' p = files ws p)
           \<and> (if list_ex (contains IMAGE_TAG_token) ls
               then \<exists>ls'. files ws' wfile = Some ls' \<and> length ls' = length ls
                      \<and> (\<forall>i<length ls. \<exists>ps. ls ! i = join IMAGE_TAG_token ps
                             \<and> ls' ! i = join tag ps
                             \<and> (\<forall>p\<in>set ps. \<not> contains IMAGE_TAG_token p))
               else ws' = ws \<and> t' = t @ placeholder_help wfile)"
proof (cases "list_ex (contains IMAGE_TAG_token) ls")
  case False
  then have "update_workflow env tag wfile ws t = Inr (ws, t @ placeholder_help wfile)"
    using assms by (simp add: update_workflow_def)
  then show ?thesis using False by simp
next
  case True
  let ?ls' = "map (gsub IMAGE_TAG_token tag) ls"
  let ?ws' = "ws\<lparr>files := (files ws)(wfile := Some ?ls')\<rparr>"
  have sed: "sed_in_place env tag ls = (0, ?ls')"
    using assms(3) by (simp add: sed_in_place_def sed_literal_plain replacement_text_literal)
  have run: "update_workflow env tag wfile ws t
        = Inr (?ws', t @ log (''Updating workflow file '' @ wfile @ '': replacing __IMAGE_TAG__ -> '' @ tag)
                       @ [Cmd (sed_argv env tag wfile)] @ log ''Workflow file updated.'')"
    using assms(1,2) True by (simp add: update_workflow_def sed Let_def)
  have tok: "IMAGE_TAG_token \<noteq> []"
    by (simp add: IMAGE_TAG_token_def)
  have pieces: "\<forall>i<length ls. \<exists>ps. ls ! i = join IMAGE_TAG_token ps
                    \<and> ?ls' ! i = join tag ps
                    \<and> (\<forall>p\<in>set ps. \<not> contains IMAGE_TAG_token p)"
  proof (intro allI impI)
    fix i assume i: "i < length ls"
    from gsub_pieces [OF tok, of "ls ! i" tag]
    obtain ps where "ls ! i = join IMAGE_TAG_token ps"
      "gsub IMAGE_TAG_token tag (ls ! i) = join tag ps"
      "\<forall>p\<in>set ps. \<not> contains IMAGE_TAG_token p"
      by blast
    then show "\<exists>ps. ls ! i = join IMAGE_TAG_token ps \<and> ?ls' ! i = join tag ps
                 \<and> (\<forall>p\<in>set ps. \<not> contains IMAGE_TAG_token p)"
      using i by auto
  qed
  have "files ?ws' wfile = Some ?ls' \<and> length ?ls' = length ls"
    by simp
  then have "\<exists>ls'. files ?ws' wfile = Some ls' \<and> length ls' = length ls
                \<and> (\<forall>i<length ls. \<exists>ps. ls ! i = join IMAGE_TAG_token ps
                       \<and> ls' ! i = join tag ps
                       \<and> (\<forall>p\<in>set ps. \<not> contains IMAGE_TAG_token p))"
    using pieces by blast
  moreover have "image_override ?ws' = image_override ws"
    by simp
  moreover have "\<forall>p. p \<noteq> wfile \<longrightarrow> files ?ws' p = files ws p"
    by simp
  ultimately show ?thesis
    using run True by (simp del: fun_upd_apply)
qed


lemma workflow_yml_has_token: "list_ex (contains IMAGE_TAG_token) workflow_yml"
  by code_simp

lemma readme_md_no_token: "\<not> list_ex (contains IMAGE_TAG_token) readme_md"
  by code_simp

lemma gsub_workflow_yml:
  "map (gsub IMAGE_TAG_token ''3f2a9c1'') workflow_yml
     = [''env:'', ''  IMAGE_TAG: 3f2a9c1'', ''  IMAGE: user/app:3f2a9c1 # 3f2a9c1IMAGE_TAG__'']"
  by code_simp



lemma push_all_failure: "push_all env imgs t = Inl (st, t') \<Longrightarrow> st \<noteq> 0"
  by (induction imgs arbitrary: t) (auto simp add: Let_def split: if_splits)

lemma build_images_ended:
  assumes "build_images env repo tag ws t = Inl r"
  shows "exit_code r \<noteq> 0"
  using assms push_all_failure
  by (auto simp add: build_images_def Let_def split: if_splits sum.splits prod.splits)

lemma build_images_goes_on:
  assumes "build_images env repo tag ws t = Inr (ws1, t1)"
  shows "files ws1 = files ws"
  using assms
  by (auto simp add: build_images_def Let_def split: if_splits sum.splits prod.splits)

lemma update_workflow_ended:
  assumes "update_workflow env tag wfile ws t = Inl r"
  shows "exit_code r \<noteq> 0"
  using assms
  by (auto simp add: update_workflow_def Let_def split: if_splits option.splits)

lemma compute_tag_ended: "compute_tag env = Inl st \<Longrightarrow> st \<noteq> 0"
  by (auto simp add: compute_tag_def split: if_splits)

lemma cleanup_removes: "image_override (final (cleanup tag ws t)) = None" "exit_code (cleanup tag ws t) = 0"
  by (simp_all add: cleanup_def)

lemma publish_success_removes:
  assumes "exit_code (publish env wfile ws) = 0"
  shows "image_override (final (publish env wfile ws)) = None"
proof -
  have v: "\<not> unset_or_empty (DOCKERHUB_REPO env)"
    "\<not> (unset_or_empty (DOCKERHUB_USERNAME env) \<or> unset_or_empty (DOCKERHUB_TOKEN env))"
    using assms by (auto simp add: publish_def split: if_splits)
  obtain tag where tag: "compute_tag env = Inr tag"
    using assms v compute_tag_ended [of env]
    by (cases "compute_tag env") (auto simp add: publish_def)
  let ?t1 = "log (''Using Docker Hub repo: '' @ the (DOCKERHUB_REPO env)) @ log (''Computed tag: '' @ tag)"
  let ?b = "build_images env (the (DOCKERHUB_REPO env)) tag ws ?t1"
  have p1: "publish env wfile ws =
              (case ?b of Inl ended \<Rightarrow> ended
               | Inr (ws1, t2) \<Rightarrow>
                   (case update_workflow env tag wfile ws1 t2 of
                      Inl ended \<Rightarrow> ended
                    | Inr (ws2, t3) \<Rightarrow> cleanup tag ws2 t3))"
    using v tag by (simp add: publish_def Let_def)
  obtain ws1 t2 where b: "?b = Inr (ws1, t2)"
    using assms p1 build_images_ended [of env "the (DOCKERHUB_REPO env)" tag ws ?t1]
    by (cases ?b) auto
  let ?u = "update_workflow env tag wfile ws1 t2"
  have p2: "publish env wfile ws =
              (case ?u of Inl ended \<Rightarrow> ended | Inr (ws2, t3) \<Rightarrow> cleanup tag ws2 t3)"
    using p1 b by simp
  obtain ws2 t3 where u: "?u = Inr (ws2, t3)"
    using assms p2 update_workflow_ended [of env tag wfile ws1 t2]
    by (cases ?u) auto
  have "publish env wfile ws = cleanup tag ws2 t3"
    using p2 u by simp
  then show ?thesis
    by (simp add: cleanup_removes)
qed




lemma update_workflow_missing:
  assumes "wfile \<noteq> []" and "files ws wfile = None"
  shows "update_workflow env tag wfile ws t
           = Inr (ws, t @ err (''Workflow file '' @ wfile @ '' not found. Skipping workflow update.''))"
  using assms by (simp add: update_workflow_def)

lemma update_workflow_none:
  "update_workflow env tag [] ws t
     = Inr (ws, t @ log ''No workflow file provided. Skipping workflow update step.'')"
  by (simp add: update_workflow_def)

text \<open>
  Claim C5, amended. When a workflow file is named and does not exist, the run ends as
  the same run without the option does: same exit status, same final workspace. When it
  exits 0, the error line saying that the update is skipped is among its events.
\<close>

theorem missing_workflow_file_is_skipped:
  assumes "wfile \<noteq> []" and "files ws wfile = None"
  shows "exit_code (publish env wfile ws) = exit_code (publish env [] ws)
       \<and> final (publish env wfile ws) = final (publish env [] ws)
       \<and> (exit_code (publish env wfile ws) = 0 \<longrightarrow>
            Echo (''[ERROR] Workflow file '' @ wfile @ '' not found. Skipping workflow update.'')
              \<in> set (trace (publish env wfile ws)))"
proof (cases "unset_or_empty (DOCKERHUB_REPO env)
              \<or> unset_or_empty (DOCKERHUB_USERNAME env) \<or> unset_or_empty (DOCKERHUB_TOKEN env)")
  case True
  then show ?thesis by (auto simp add: publish_def)
next
  case False
  show ?thesis
  proof (cases "compute_tag env")
    case (Inl st)
    then show ?thesis
      using False compute_tag_ended [OF Inl] by (simp add: publish_def)
  next
    case (Inr tag)
    let ?t1 = "log (''Using Docker Hub repo: '' @ the (DOCKERHUB_REPO env)) @ log (''Computed tag: '' @ tag)"
    let ?b = "build_images env (the (DOCKERHUB_REPO env)) tag ws ?t1"
    have p: "\<And>w. publish env w ws =
              (case ?b of Inl ended \<Rightarrow> ended
               | Inr (ws1, t2) \<Rightarrow>
                   (case update_workflow env tag w ws1 t2 of
                      Inl ended \<Rightarrow> ended
                    | Inr (ws2, t3) \<Rightarrow> cleanup tag ws2 t3))"
      using False Inr by (simp add: publish_def Let_def)
    show ?thesis
    proof (cases ?b)
      case (Inl ended)
      then show ?thesis
        using p build_images_ended [OF Inl] by simp
    next
      case (Inr st)
      obtain ws1 t2 where st: "st = (ws1, t2)"
        by (cases st)
      have "files ws1 wfile = None"
        using build_images_goes_on [of env "the (DOCKERHUB_REPO env)" tag ws ?t1 ws1 t2] Inr st assms(2)
        by simp
      then have u: "update_workflow env tag wfile ws1 t2
           = Inr (ws1, t2 @ err (''Workflow file '' @ wfile @ '' not found. Skipping workflow update.''))"
        using assms(1) by (rule update_workflow_missing [rotated])
      have "publish env wfile ws
              = cleanup tag ws1 (t2 @ err (''Workflow file '' @ wfile @ '' not found. Skipping workflow update.''))"
        using p [of wfile] Inr st u by simp
      moreover have "publish env [] ws
              = cleanup tag ws1 (t2 @ log ''No workflow file provided. Skipping workflow update step.'')"
        using p [of "[]"] Inr st update_workflow_none by simp
      ultimately show ?thesis
        by (simp add: cleanup_def err_def)
    qed
  qed
qed

text \<open>
  Witness for C5: build and push succeed and the named file does not exist.
\<close>

theorem missing_workflow_file_is_skipped_witness:
  "files ws0 ''missing.yml'' = None
   \<and> exit_code (publish env_build_ok ''missing.yml'' ws0) = exit_code (publish env_build_ok [] ws0)
   \<and> final (publish env_build_ok ''missing.yml'' ws0) = final (publish env_build_ok [] ws0)
   \<and> exit_code (publish env_build_ok ''missing.yml'' ws0) = 0
   \<and> Echo ''[ERROR] Workflow file missing.yml not found. Skipping workflow update.''
        \<in> set (trace (publish env_build_ok ''missing.yml'' ws0))"
proof -
  have a: "''missing.yml'' \<noteq> []"
    by simp
  have b: "files ws0 ''missing.yml'' = None"
    by (simp add: ws0_def)
  have c: "exit_code (publish env_build_ok ''missing.yml'' ws0) = 0"
    by code_simp
  from missing_workflow_file_is_skipped [OF a b, of env_build_ok] b c show ?thesis
    by simp
qed

text \<open>
  Counterexample to C5 as stated: the named workflow file does not exist and the script
  exits 0.
\<close>

theorem missing_workflow_file_counterexample:
  "files ws0 ''missing.yml'' = None
   \<and> parse_args [''--workflow-file'', ''missing.yml''] [] = Inr ''missing.yml''
   \<and> exit_code (build_and_push env_build_ok [''--workflow-file'', ''missing.yml''] ws0) = 0"
  by code_simp

text \<open>
  Claim C3 fails on the code in a work tree that has no commit yet. \<open>GITHUB_SHA\<close> is
  unset, git is on the path and \<^verbatim>\<open>git rev-parse --is-inside-work-tree\<close> succeeds, but
  \<^verbatim>\<open>git rev-parse --short HEAD\<close> fails with status 128. No short commit id is available,
  yet the script does not fall back to the timestamp: it ends with status 128 at the
  assignment, before it printed anything.
\<close>

theorem tag_aborts_in_fresh_repository:
  "GITHUB_SHA env_fresh_repo = None
   \<and> git_on_path env_fresh_repo
   \<and> git_inside_work_tree env_fresh_repo = 0
   \<and> fst (git_short_head env_fresh_repo) = 128
   \<and> compute_tag env_fresh_repo = Inl 128
   \<and> exit_code (build_and_push env_fresh_repo [] ws0) = 128
   \<and> trace (build_and_push env_fresh_repo [] ws0) = []"
  by code_simp

text \<open>
  On every other input the order is the one claimed: the first seven characters of
  \<open>GITHUB_SHA\<close>, else the short commit id that git printed, else the timestamp; one
  source, never a combination.
\<close>

lemma compute_tag_sources:
  "compute_tag env =
     (if \<not> unset_or_empty (GITHUB_SHA env) then Inr (take 7 (the (GITHUB_SHA env)))
      else if git_on_path env \<and> git_inside_work_tree env = 0 \<and> fst (git_short_head env) = 0
        then Inr (strip_trailing_newlines (snd (git_short_head env)))
      else if git_on_path env \<and> git_inside_work_tree env = 0
        then Inl (fst (git_short_head env))
      else Inr (strip_trailing_newlines (date_stamp env)))"
  by (simp add: compute_tag_def)


end
